theory Spec2Isabelle
  imports Complex_Main "HOL-Library.Multiset" "HOL-Library.Product_Lexorder"
    "HOL-Library.Option_ord" "HOL-Library.List_Lexorder" "HOL-Library.Char_ord"
begin

section \<open>Errors\<close>

text \<open>
  The Python exceptions that the decoding and projection code of \<^verbatim>\<open>etl/eufacts.py\<close>
  can raise. The two \<^verbatim>\<open>ValueError\<close>s of \<^verbatim>\<open>parse_latest_and_timeseries\<close> are kept
  apart by their message (no \<^verbatim>\<open>value\<close> mapping, no \<^verbatim>\<open>time\<close> dimension).
\<close>

datatype error =
    ValueError_no_value
  | ValueError_no_time
  | KeyError
  | ZeroDivisionError
  | TypeError

section \<open>Coordinate decoder\<close>

text \<open>
  \<^verbatim>\<open>
  def _linear_index_to_coords(idx, dims_sizes):
      coords = []
      for size in reversed(dims_sizes):
          coords.append(idx % size)
          idx //= size
      return list(reversed(coords))
  \<close>
  Python's \<^verbatim>\<open>%\<close> and \<^verbatim>\<open>//\<close> on integers are floor division and its remainder, as
  \<open>mod\<close> and \<open>div\<close> on \<^typ>\<open>int\<close> are; a zero size raises \<^verbatim>\<open>ZeroDivisionError\<close>.
  \<open>coords_loop\<close> is the \<^verbatim>\<open>for\<close> loop, run over the reversed size list.
\<close>

fun coords_loop :: "int \<Rightarrow> int list \<Rightarrow> int list \<Rightarrow> error + int list" where
  "coords_loop idx [] coords = Inr coords"
| "coords_loop idx (sz # rest) coords =
     (if sz = 0 then Inl ZeroDivisionError
      else coords_loop (idx div sz) rest (coords @ [idx mod sz]))"

definition linear_index_to_coords :: "int \<Rightarrow> int list \<Rightarrow> error + int list" where
  "linear_index_to_coords idx dims_sizes =
     (case coords_loop idx (rev dims_sizes) [] of
        Inl e \<Rightarrow> Inl e
      | Inr coords \<Rightarrow> Inr (rev coords))"

text \<open>
  The re-encoding of the specification: the position vector read as mixed-radix digits
  over the size list, row-major (the last dimension varies fastest), by Horner's scheme
  from the first dimension to the last.
\<close>

definition mixed_radix_encode :: "int list \<Rightarrow> int list \<Rightarrow> int" where
  "mixed_radix_encode sizes coords =
     foldl (\<lambda>acc (sz, c). acc * sz + c) 0 (zip sizes coords)"

text \<open>The digits the loop appends, least significant first.\<close>

fun digits :: "int \<Rightarrow> int list \<Rightarrow> int list" where
  "digits idx [] = []"
| "digits idx (sz # rest) = (idx mod sz) # digits (idx div sz) rest"

section \<open>The cube document\<close>

text \<open>
  A Python \<^verbatim>\<open>dict\<close> that the code iterates is an association list in insertion order
  (its keys are pairwise distinct); one that the code only looks keys up in is a map.
  A key that \<^verbatim>\<open>.get\<close> may find absent is an \<open>option\<close>.

  \<^verbatim>\<open>cube["dimension"][d]["category"]\<close> has the optional keys \<^verbatim>\<open>index\<close> (code to
  position), \<^verbatim>\<open>label\<close> (code to label) and \<^verbatim>\<open>length\<close>.
\<close>

record category =
  cat_index :: "(string \<times> int) list option"
  cat_label :: "(string \<times> string) list option"
  cat_length :: "int option"

text \<open>
  The cube: \<^verbatim>\<open>cube["id"]\<close>, \<^verbatim>\<open>cube["size"]\<close>, \<^verbatim>\<open>cube["dimension"]\<close> and
  \<^verbatim>\<open>cube.get("value", {})\<close>. \<open>cube_dimension c d = None\<close> is a dimension \<open>d\<close> missing
  from \<^verbatim>\<open>cube["dimension"]\<close>, \<open>Some None\<close> one without the key \<^verbatim>\<open>category\<close>;
  both raise \<^verbatim>\<open>KeyError\<close>. The value mapping is kept in iteration order; each key is
  the integer that \<^verbatim>\<open>int(k)\<close> returns for the key string \<open>k\<close> (two different strings
  may give the same integer), each value a number or \<^verbatim>\<open>None\<close> (JSON \<^verbatim>\<open>null\<close>).
  Numbers are taken as reals; the code only stores and compares them.
\<close>

record cube =
  cube_id :: "string list"
  cube_size :: "int list"
  cube_dimension :: "string \<rightharpoonup> category option"
  cube_value :: "(int \<times> real option) list option"

text \<open>One entry of \<^verbatim>\<open>dim_meta\<close>.\<close>

record dim_entry =
  dm_index :: "(string \<times> int) list"
  dm_inv_index :: "int \<rightharpoonup> string"
  dm_labels :: "(string \<times> string) list"
  dm_size :: int

text \<open>One entry of \<^verbatim>\<open>coord_map\<close>: \<^verbatim>\<open>{"code": code, "label": label, "pos": pos}\<close>.\<close>

record coord =
  co_code :: string
  co_label :: string
  co_pos :: int

text \<open>
  One element of \<^verbatim>\<open>all_records\<close>. A field is \<open>None\<close> where
  \<^verbatim>\<open>coord_map.get(..., {}).get(...)\<close> finds no such dimension.
\<close>

record flat_record =
  rec_value :: "real option"
  unit_code :: "string option"
  unit_label :: "string option"
  geo_code :: "string option"
  geo_label :: "string option"
  time_code :: "string option"
  time_label :: "string option"
  time_pos :: "int option"

text \<open>One element of \<^verbatim>\<open>latest_output\<close>.\<close>

record latest_row =
  country_code :: "string option"
  country :: "string option"
  time :: "string option"
  value_pct_gdp :: "real option"

text \<open>One element of a \<^verbatim>\<open>series\<close> list, and one value of \<^verbatim>\<open>series_by_geo\<close>.\<close>

record series_entry =
  se_time :: "string option"
  se_value_pct_gdp :: "real option"

record geo_series =
  gs_country_code :: string
  gs_country :: "string option"
  gs_unit :: string
  gs_series :: "series_entry list"

record meta =
  meta_dim_ids :: "string list"
  meta_units_present :: "string list"
  meta_chosen_unit :: "string option"
  meta_latest_time_code :: string
  meta_latest_time_label :: string

section \<open>Python helpers\<close>

text \<open>Truth value of a string or \<^verbatim>\<open>None\<close>: false for \<^verbatim>\<open>None\<close> and for the empty string.\<close>

definition truthy :: "string option \<Rightarrow> bool" where
  "truthy s = (case s of None \<Rightarrow> False | Some x \<Rightarrow> x \<noteq> [])"

text \<open>\<^verbatim>\<open>d[k] = v\<close> on an insertion-ordered dict: overwrite in place, or append.\<close>

definition dict_set :: "('k \<times> 'v) list \<Rightarrow> 'k \<Rightarrow> 'v \<Rightarrow> ('k \<times> 'v) list" where
  "dict_set d k v =
     (if k \<in> set (map fst d)
      then map (\<lambda>kv. if fst kv = k then (k, v) else kv) d
      else d @ [(k, v)])"

text \<open>\<^verbatim>\<open>m.get(k, default)\<close> on such a dict.\<close>

definition dict_get :: "('k \<times> 'v) list \<Rightarrow> 'k \<Rightarrow> 'v \<Rightarrow> 'v" where
  "dict_get d k dflt = (case map_of d k of None \<Rightarrow> dflt | Some v \<Rightarrow> v)"

section \<open>Dimension catalog builder\<close>

text \<open>
  \<^verbatim>\<open>
  for d in dim_ids:
      cat = dimension[d]["category"]
      index_map = cat.get("index", {})
      if not index_map:
          members = list(cat.get("label", {}).keys())
          index_map = {m: i for i, m in enumerate(members)}
      labels = cat.get("label", {})
      inv_index = {pos: code for code, pos in index_map.items()}
      size_guess = dimension[d]["category"].get("length", len(index_map))
      dim_meta[d] = {"index": index_map, "inv_index": inv_index,
                     "labels": labels, "size": size_guess}
  return dim_ids, size, dim_meta
  \<close>
\<close>

text \<open>
  \<^verbatim>\<open>cat.get("index", {})\<close> and \<^verbatim>\<open>cat.get("label", {})\<close>, the two mappings the builder
  reads from a category.
\<close>

definition cat_index_map :: "category \<Rightarrow> (string \<times> int) list" where
  "cat_index_map cat = (case cat_index cat of None \<Rightarrow> [] | Some m \<Rightarrow> m)"

definition cat_labels :: "category \<Rightarrow> (string \<times> string) list" where
  "cat_labels cat = (case cat_label cat of None \<Rightarrow> [] | Some l \<Rightarrow> l)"

definition enumerate_index :: "string list \<Rightarrow> (string \<times> int) list" where
  "enumerate_index members =
     foldl (\<lambda>d im. dict_set d (snd im) (int (fst im))) [] (enumerate 0 members)"

definition invert_index :: "(string \<times> int) list \<Rightarrow> (int \<rightharpoonup> string)" where
  "invert_index index_map = foldl (\<lambda>inv cp. inv(snd cp \<mapsto> fst cp)) Map.empty index_map"

definition build_entry :: "category \<Rightarrow> dim_entry" where
  "build_entry cat =
     (let index_map0 = cat_index_map cat;
          index_map =
            (if index_map0 = [] then enumerate_index (map fst (cat_labels cat))
             else index_map0);
          labels = cat_labels cat;
          inv_index = invert_index index_map;
          size_guess = (case cat_length cat of None \<Rightarrow> int (length index_map) | Some n \<Rightarrow> n)
      in \<lparr>dm_index = index_map, dm_inv_index = inv_index,
          dm_labels = labels, dm_size = size_guess\<rparr>)"

fun dim_meta_loop ::
  "(string \<rightharpoonup> category option) \<Rightarrow> string list \<Rightarrow> (string \<rightharpoonup> dim_entry)
     \<Rightarrow> error + (string \<rightharpoonup> dim_entry)" where
  "dim_meta_loop dimension [] dim_meta = Inr dim_meta"
| "dim_meta_loop dimension (d # ds) dim_meta =
     (case dimension d of
        None \<Rightarrow> Inl KeyError
      | Some None \<Rightarrow> Inl KeyError
      | Some (Some cat) \<Rightarrow> dim_meta_loop dimension ds (dim_meta(d \<mapsto> build_entry cat)))"

definition build_dim_meta ::
  "cube \<Rightarrow> error + (string list \<times> int list \<times> (string \<rightharpoonup> dim_entry))" where
  "build_dim_meta c =
     (case dim_meta_loop (cube_dimension c) (cube_id c) Map.empty of
        Inl e \<Rightarrow> Inl e
      | Inr dim_meta \<Rightarrow> Inr (cube_id c, cube_size c, dim_meta))"

section \<open>Cell materializer\<close>

text \<open>
  \<^verbatim>\<open>
  for dim_name, pos in zip(dim_ids, coords):
      inv = dim_meta[dim_name]["inv_index"]
      code = inv[pos]
      label = dim_meta[dim_name]["labels"].get(code, code)
      coord_map[dim_name] = {"code": code, "label": label, "pos": pos}
  \<close>
\<close>

fun coord_map_loop ::
  "(string \<rightharpoonup> dim_entry) \<Rightarrow> (string \<times> int) list \<Rightarrow> (string \<rightharpoonup> coord)
     \<Rightarrow> error + (string \<rightharpoonup> coord)" where
  "coord_map_loop dim_meta [] coord_map = Inr coord_map"
| "coord_map_loop dim_meta (np # rest) coord_map =
     (case dim_meta (fst np) of
        None \<Rightarrow> Inl KeyError
      | Some e \<Rightarrow>
          (case dm_inv_index e (snd np) of
             None \<Rightarrow> Inl KeyError
           | Some code \<Rightarrow>
               coord_map_loop dim_meta rest
                 (coord_map(fst np \<mapsto>
                    \<lparr>co_code = code, co_label = dict_get (dm_labels e) code code,
                     co_pos = snd np\<rparr>))))"

definition make_record :: "real option \<Rightarrow> (string \<rightharpoonup> coord) \<Rightarrow> flat_record" where
  "make_record v coord_map =
     \<lparr>rec_value = v,
      unit_code = map_option co_code (coord_map ''unit''),
      unit_label = map_option co_label (coord_map ''unit''),
      geo_code = map_option co_code (coord_map ''geo''),
      geo_label = map_option co_label (coord_map ''geo''),
      time_code = map_option co_code (coord_map ''time''),
      time_label = map_option co_label (coord_map ''time''),
      time_pos = map_option co_pos (coord_map ''time'')\<rparr>"

text \<open>
  \<^verbatim>\<open>
  for k, v in value_map.items():
      lin_idx = int(k)
      coords = _linear_index_to_coords(lin_idx, size)
      coord_map = {}
      ...
      all_records.append({...})
  \<close>
\<close>

fun records_loop ::
  "string list \<Rightarrow> int list \<Rightarrow> (string \<rightharpoonup> dim_entry) \<Rightarrow> (int \<times> real option) list
     \<Rightarrow> flat_record list \<Rightarrow> error + flat_record list" where
  "records_loop dim_ids sizes dim_meta [] all_records = Inr all_records"
| "records_loop dim_ids sizes dim_meta (kv # rest) all_records =
     (case linear_index_to_coords (fst kv) sizes of
        Inl e \<Rightarrow> Inl e
      | Inr coords \<Rightarrow>
          (case coord_map_loop dim_meta (zip dim_ids coords) Map.empty of
             Inl e \<Rightarrow> Inl e
           | Inr coord_map \<Rightarrow>
               records_loop dim_ids sizes dim_meta rest
                 (all_records @ [make_record (snd kv) coord_map])))"

section \<open>Unit disambiguator\<close>

text \<open>
  \<^verbatim>\<open>
  def _choose_pct_unit(records):
      units_present = sorted({r["unit_code"] for r in records if r.get("unit_code")})
      for candidate in ("PC_GDP", "PCGDP", "PCT_GDP", "PCTGDP"):
          if candidate in units_present:
              return candidate
      unit_labels = {}
      for r in records:
          uc = r.get("unit_code")
          if uc and uc not in unit_labels:
              unit_labels[uc] = r.get("unit_label")
      for code, label in unit_labels.items():
          if label and "%" in label:
              return code
      if len(units_present) == 1:
          return units_present[0]
      return None
  \<close>
  Strings are ordered as Python orders them: lexicographically, character by character.
\<close>

definition units_present_of :: "flat_record list \<Rightarrow> string list" where
  "units_present_of records =
     sort (remdups (map (\<lambda>r. the (unit_code r)) (filter (\<lambda>r. truthy (unit_code r)) records)))"

fun first_candidate :: "string list \<Rightarrow> string list \<Rightarrow> string option" where
  "first_candidate [] units_present = None"
| "first_candidate (candidate # rest) units_present =
     (if candidate \<in> set units_present then Some candidate
      else first_candidate rest units_present)"

fun unit_labels_loop ::
  "flat_record list \<Rightarrow> (string \<times> string option) list \<Rightarrow> (string \<times> string option) list" where
  "unit_labels_loop [] unit_labels = unit_labels"
| "unit_labels_loop (r # rs) unit_labels =
     (if truthy (unit_code r) \<and> the (unit_code r) \<notin> set (map fst unit_labels)
      then unit_labels_loop rs (dict_set unit_labels (the (unit_code r)) (unit_label r))
      else unit_labels_loop rs unit_labels)"

definition has_percent :: "string option \<Rightarrow> bool" where
  "has_percent label = (truthy label \<and> CHR ''%'' \<in> set (the label))"

fun first_percent :: "(string \<times> string option) list \<Rightarrow> string option" where
  "first_percent [] = None"
| "first_percent (cl # rest) =
     (if has_percent (snd cl) then Some (fst cl) else first_percent rest)"

definition choose_pct_unit :: "flat_record list \<Rightarrow> string option" where
  "choose_pct_unit records =
     (let units_present = units_present_of records in
      case first_candidate [''PC_GDP'', ''PCGDP'', ''PCT_GDP'', ''PCTGDP''] units_present of
        Some candidate \<Rightarrow> Some candidate
      | None \<Rightarrow>
          (case first_percent (unit_labels_loop records []) of
             Some code \<Rightarrow> Some code
           | None \<Rightarrow>
               if length units_present = 1 then Some (units_present ! 0) else None))"

text \<open>
  The cascade in the words of the specification. The unit codes present are the codes of
  the records that have one (a missing or empty code is none), each kept at its first
  occurrence (\<open>first_seen\<close>); the label of a code is the label of the first record that
  carries the code.
\<close>

primrec first_seen :: "'a list \<Rightarrow> 'a list" where
  "first_seen [] = []"
| "first_seen (x # xs) = x # filter (\<lambda>y. y \<noteq> x) (first_seen xs)"

definition unit_codes_of :: "flat_record list \<Rightarrow> string list" where
  "unit_codes_of records =
     first_seen (map (\<lambda>r. the (unit_code r)) (filter (\<lambda>r. truthy (unit_code r)) records))"

definition label_of_code :: "flat_record list \<Rightarrow> string \<Rightarrow> string option" where
  "label_of_code records c =
     (case find (\<lambda>r. unit_code r = Some c) records of
        None \<Rightarrow> None
      | Some r \<Rightarrow> unit_label r)"

definition unit_cascade_spec :: "flat_record list \<Rightarrow> string option" where
  "unit_cascade_spec records =
     (let codes = unit_codes_of records in
      case find (\<lambda>c. c \<in> set codes) [''PC_GDP'', ''PCGDP'', ''PCT_GDP'', ''PCTGDP''] of
        Some c \<Rightarrow> Some c
      | None \<Rightarrow>
          (case find (\<lambda>c. has_percent (label_of_code records c)) codes of
             Some c \<Rightarrow> Some c
           | None \<Rightarrow> if card (set codes) = 1 then Some (hd codes) else None))"

section \<open>Projection builder\<close>

text \<open>
  \<^verbatim>\<open>
  if chosen_unit:
      all_records = [r for r in all_records if r.get("unit_code") == chosen_unit]
  \<close>
\<close>

definition unit_filter :: "string option \<Rightarrow> flat_record list \<Rightarrow> flat_record list" where
  "unit_filter chosen_unit all_records =
     (if truthy chosen_unit then filter (\<lambda>r. unit_code r = chosen_unit) all_records
      else all_records)"

text \<open>
  \<^verbatim>\<open>
  latest_records = [r for r in all_records if r.get("time_pos") == latest_time_pos]
  latest_records.sort(key=lambda x: (x["value"] is None, x["value"]), reverse=True)
  \<close>
  The key is a pair, compared lexicographically; \<open>False < True\<close>. Two keys with equal
  first components hold two numbers or two \<^verbatim>\<open>None\<close>s, so Python never compares
  \<^verbatim>\<open>None\<close> with a number here. \<^verbatim>\<open>sort(reverse=True)\<close> is descending and stable: it
  reverses the list, sorts it stably in ascending order and reverses the result.
\<close>

definition latest_key :: "flat_record \<Rightarrow> bool \<times> real option" where
  "latest_key x = (rec_value x = None, rec_value x)"

definition sort_reverse :: "('a \<Rightarrow> 'k::linorder) \<Rightarrow> 'a list \<Rightarrow> 'a list" where
  "sort_reverse key xs = rev (sort_key key (rev xs))"

definition latest_row_of :: "flat_record \<Rightarrow> latest_row" where
  "latest_row_of r =
     \<lparr>country_code = geo_code r, country = geo_label r,
      time = time_label r, value_pct_gdp = rec_value r\<rparr>"

definition latest_projection :: "int \<Rightarrow> flat_record list \<Rightarrow> latest_row list" where
  "latest_projection latest_time_pos all_records =
     map latest_row_of
       (sort_reverse latest_key (filter (\<lambda>r. time_pos r = Some latest_time_pos) all_records))"

text \<open>
  Two orders on the value column of the latest-period output. \<open>missing_last_desc a b\<close>
  allows \<open>a\<close> before \<open>b\<close> in the order the specification describes: descending, a missing
  value after every present one. \<open>missing_first_desc\<close> is descending with a missing value
  before every present one.
\<close>

fun missing_last_desc :: "real option \<Rightarrow> real option \<Rightarrow> bool" where
  "missing_last_desc None (Some b) = False"
| "missing_last_desc (Some a) (Some b) = (b \<le> a)"
| "missing_last_desc a None = True"

fun missing_first_desc :: "real option \<Rightarrow> real option \<Rightarrow> bool" where
  "missing_first_desc (Some a) None = False"
| "missing_first_desc (Some a) (Some b) = (b \<le> a)"
| "missing_first_desc None b = True"

text \<open>
  \<^verbatim>\<open>
  all_records_sorted = sorted(all_records, key=lambda x: (x["geo_code"], x["time_pos"]))
  \<close>
  Python compares two key pairs at their first differing component, and raises
  \<^verbatim>\<open>TypeError\<close> when one of the two values there is \<^verbatim>\<open>None\<close>. A sort that meets no
  such pair is the stable ascending sort; a list that holds such a pair cannot be put in
  order without comparing one, so the sort raises. On the keys that can be compared,
  the order is the lexicographic one (strings by character, \<^verbatim>\<open>None\<close> only ever against
  \<^verbatim>\<open>None\<close>).
\<close>

definition series_key :: "flat_record \<Rightarrow> string option \<times> int option" where
  "series_key x = (geo_code x, time_pos x)"

definition comparable :: "string option \<times> int option \<Rightarrow> string option \<times> int option \<Rightarrow> bool" where
  "comparable k1 k2 =
     (if fst k1 \<noteq> fst k2 then fst k1 \<noteq> None \<and> fst k2 \<noteq> None
      else if snd k1 \<noteq> snd k2 then snd k1 \<noteq> None \<and> snd k2 \<noteq> None
      else True)"

definition sorted_by_series_key :: "flat_record list \<Rightarrow> error + flat_record list" where
  "sorted_by_series_key all_records =
     (if list_all (\<lambda>x. list_all (\<lambda>y. comparable (series_key x) (series_key y)) all_records)
           all_records
      then Inr (sort_key series_key all_records)
      else Inl TypeError)"

text \<open>
  \<^verbatim>\<open>
  for r in all_records_sorted:
      geo = r["geo_code"]
      if not geo:
          continue
      if geo not in series_by_geo:
          series_by_geo[geo] = {"country_code": geo, "country": r["geo_label"],
                                "unit": "% of GDP", "series": []}
      series_by_geo[geo]["series"].append({"time": r["time_label"],
                                           "value_pct_gdp": r["value"]})
  \<close>
  \<^verbatim>\<open>series_by_geo\<close> is iterated later (\<^verbatim>\<open>list(series_by_geo.values())\<close>), so it is kept
  in insertion order.
\<close>

definition series_entry_of :: "flat_record \<Rightarrow> series_entry" where
  "series_entry_of r = \<lparr>se_time = time_label r, se_value_pct_gdp = rec_value r\<rparr>"

definition append_entry :: "string \<Rightarrow> series_entry \<Rightarrow> string \<times> geo_series \<Rightarrow> string \<times> geo_series" where
  "append_entry geo e gs =
     (if fst gs = geo then (fst gs, (snd gs)\<lparr>gs_series := gs_series (snd gs) @ [e]\<rparr>) else gs)"

fun series_loop ::
  "flat_record list \<Rightarrow> (string \<times> geo_series) list \<Rightarrow> (string \<times> geo_series) list" where
  "series_loop [] series_by_geo = series_by_geo"
| "series_loop (r # rs) series_by_geo =
     (if \<not> truthy (geo_code r) then series_loop rs series_by_geo
      else
        let geo = the (geo_code r);
            series_by_geo1 =
              (if geo \<notin> set (map fst series_by_geo)
               then dict_set series_by_geo geo
                      \<lparr>gs_country_code = geo, gs_country = geo_label r,
                       gs_unit = ''% of GDP'', gs_series = []\<rparr>
               else series_by_geo)
        in series_loop rs (map (append_entry geo (series_entry_of r)) series_by_geo1))"

definition timeseries_projection ::
  "flat_record list \<Rightarrow> error + (string \<times> geo_series) list" where
  "timeseries_projection all_records =
     (case sorted_by_series_key all_records of
        Inl e \<Rightarrow> Inl e
      | Inr all_records_sorted \<Rightarrow> Inr (series_loop all_records_sorted []))"

text \<open>
  For stating what the loop builds: the geography codes of a record list that the loop
  does not skip, each at its first occurrence; the series a dictionary holds under a key
  (empty when the key is absent); the number of entries of every series of a result; and
  the distinct time positions among the records of one geography.
\<close>

definition geo_codes_of :: "flat_record list \<Rightarrow> string list" where
  "geo_codes_of records =
     first_seen (map (\<lambda>r. the (geo_code r)) (filter (\<lambda>r. truthy (geo_code r)) records))"

definition old_series :: "(string \<times> geo_series) list \<Rightarrow> string \<Rightarrow> series_entry list" where
  "old_series sbg g = (case map_of sbg g of None \<Rightarrow> [] | Some s \<Rightarrow> gs_series s)"

definition series_lengths :: "error + (string \<times> geo_series) list \<Rightarrow> (string \<times> nat) list" where
  "series_lengths res =
     (case res of
        Inl e \<Rightarrow> []
      | Inr sbg \<Rightarrow> map (\<lambda>gs. (fst gs, length (gs_series (snd gs)))) sbg)"

definition time_positions_of :: "string \<Rightarrow> flat_record list \<Rightarrow> int option list" where
  "time_positions_of g records =
     remdups (map time_pos (filter (\<lambda>r. geo_code r = Some g) records))"

section \<open>The parse operation\<close>

text \<open>
  \<^verbatim>\<open>parse_latest_and_timeseries\<close>: the two guards, the latest period taken from the
  catalog, the records, the unit filter and the two projections, in the order of the
  source; every exception is a branch.
\<close>

definition value_map_of :: "cube \<Rightarrow> (int \<times> real option) list" where
  "value_map_of c = (case cube_value c of None \<Rightarrow> [] | Some m \<Rightarrow> m)"

definition parse_latest_and_timeseries ::
  "cube \<Rightarrow> error + (latest_row list \<times> (string \<times> geo_series) list \<times> meta)" where
  "parse_latest_and_timeseries c =
     (let value_map = value_map_of c in
      if value_map = [] then Inl ValueError_no_value
      else
        case build_dim_meta c of
          Inl e \<Rightarrow> Inl e
        | Inr (dim_ids, sizes, dim_meta) \<Rightarrow>
            (case dim_meta ''time'' of
               None \<Rightarrow> Inl ValueError_no_time
             | Some time_meta \<Rightarrow>
                 let time_size = dm_size time_meta;
                     latest_time_pos = time_size - 1
                 in case dm_inv_index time_meta latest_time_pos of
                      None \<Rightarrow> Inl KeyError
                    | Some latest_time_code \<Rightarrow>
                        let latest_time_label =
                              dict_get (dm_labels time_meta) latest_time_code latest_time_code
                        in case records_loop dim_ids sizes dim_meta value_map [] of
                             Inl e \<Rightarrow> Inl e
                           | Inr all_records0 \<Rightarrow>
                               let chosen_unit = choose_pct_unit all_records0;
                                   all_records = unit_filter chosen_unit all_records0;
                                   latest_output = latest_projection latest_time_pos all_records
                               in case timeseries_projection all_records of
                                    Inl e \<Rightarrow> Inl e
                                  | Inr series_by_geo \<Rightarrow>
                                      Inr (latest_output, series_by_geo,
                                           \<lparr>meta_dim_ids = dim_ids,
                                            meta_units_present = units_present_of all_records,
                                            meta_chosen_unit = chosen_unit,
                                            meta_latest_time_code = latest_time_code,
                                            meta_latest_time_label = latest_time_label\<rparr>)))"

text \<open>
  The flat record list of a cube (the block \<^verbatim>\<open>Verzamel alle records\<close> run on the
  catalog of the cube), and the first component of the result of the parse operation.
\<close>

definition all_records_of :: "cube \<Rightarrow> error + flat_record list" where
  "all_records_of c =
     (case build_dim_meta c of
        Inl e \<Rightarrow> Inl e
      | Inr (dim_ids, sizes, dim_meta) \<Rightarrow> records_loop dim_ids sizes dim_meta (value_map_of c) [])"

definition latest_of ::
  "error + (latest_row list \<times> (string \<times> geo_series) list \<times> meta) \<Rightarrow> latest_row list" where
  "latest_of res = (case res of Inl e \<Rightarrow> [] | Inr out \<Rightarrow> fst out)"

section \<open>The end-to-end scenario\<close>

text \<open>
  The cube of the specification's scenario: \<^verbatim>\<open>id = ["unit", "geo", "time"]\<close>,
  \<^verbatim>\<open>size = [1, 2, 2]\<close>, one unit \<^verbatim>\<open>PC_GDP\<close> labelled \<^verbatim>\<open>%\<close>, the geographies
  \<^verbatim>\<open>BE\<close> and \<^verbatim>\<open>DE\<close>, two periods, and the values 80, 60, 82, 65 at the linear
  indices 0, 1, 2, 3.
\<close>

definition scenario_cube :: cube where
  "scenario_cube =
     \<lparr>cube_id = [''unit'', ''geo'', ''time''],
      cube_size = [1, 2, 2],
      cube_dimension =
        [''unit'' \<mapsto> Some \<lparr>cat_index = Some [(''PC_GDP'', 0)],
                            cat_label = Some [(''PC_GDP'', ''%'')],
                            cat_length = None\<rparr>,
         ''geo'' \<mapsto> Some \<lparr>cat_index = Some [(''BE'', 0), (''DE'', 1)],
                           cat_label = Some [(''BE'', ''Belgium''), (''DE'', ''Germany'')],
                           cat_length = None\<rparr>,
         ''time'' \<mapsto> Some \<lparr>cat_index = Some [(''2023'', 0), (''2024'', 1)],
                            cat_label = Some [(''2023'', ''2023''), (''2024'', ''2024'')],
                            cat_length = None\<rparr>],
      cube_value = Some [(0, Some 80), (1, Some 60), (2, Some 82), (3, Some 65)]\<rparr>"

section \<open>Further example inputs\<close>

text \<open>A cube without a \<^verbatim>\<open>time\<close> dimension.\<close>

definition no_time_cube :: cube where
  "no_time_cube =
     \<lparr>cube_id = [''unit'', ''geo''],
      cube_size = [1, 2],
      cube_dimension =
        [''unit'' \<mapsto> Some \<lparr>cat_index = Some [(''PC_GDP'', 0)],
                            cat_label = Some [(''PC_GDP'', ''%'')],
                            cat_length = None\<rparr>,
         ''geo'' \<mapsto> Some \<lparr>cat_index = Some [(''BE'', 0), (''DE'', 1)],
                           cat_label = Some [(''BE'', ''Belgium''), (''DE'', ''Germany'')],
                           cat_length = None\<rparr>],
      cube_value = Some [(0, Some 80), (1, Some 60)]\<rparr>"

text \<open>
  The scenario cube with observations for the first period only (linear indices 0 and 2):
  the catalog still declares two periods.
\<close>

definition sparse_cube :: cube where
  "sparse_cube = scenario_cube\<lparr>cube_value := Some [(0, Some 80), (2, Some 82)]\<rparr>"

text \<open>
  A cube with two units, neither a preferred code nor labelled with a percent sign, one
  geography and one period.
\<close>

definition two_unit_cube :: cube where
  "two_unit_cube =
     \<lparr>cube_id = [''unit'', ''geo'', ''time''],
      cube_size = [2, 1, 1],
      cube_dimension =
        [''unit'' \<mapsto> Some \<lparr>cat_index = Some [(''MIO_EUR'', 0), (''MIO_NAC'', 1)],
                            cat_label = Some [(''MIO_EUR'', ''Million euro''),
                                              (''MIO_NAC'', ''Million units of national currency'')],
                            cat_length = None\<rparr>,
         ''geo'' \<mapsto> Some \<lparr>cat_index = Some [(''BE'', 0)],
                           cat_label = Some [(''BE'', ''Belgium'')],
                           cat_length = None\<rparr>,
         ''time'' \<mapsto> Some \<lparr>cat_index = Some [(''2024'', 0)],
                            cat_label = Some [(''2024'', ''2024'')],
                            cat_length = None\<rparr>],
      cube_value = Some [(0, Some 1), (1, Some 2)]\<rparr>"

text \<open>
  A cube whose geography category has labels but no index map, and whose time category
  has an explicit \<^verbatim>\<open>length\<close>.
\<close>

definition fallback_cube :: cube where
  "fallback_cube =
     \<lparr>cube_id = [''geo'', ''time''],
      cube_size = [2, 2],
      cube_dimension =
        [''geo'' \<mapsto> Some \<lparr>cat_index = None,
                           cat_label = Some [(''BE'', ''Belgium''), (''DE'', ''Germany'')],
                           cat_length = None\<rparr>,
         ''time'' \<mapsto> Some \<lparr>cat_index = Some [(''2023'', 0), (''2024'', 1)],
                            cat_label = Some [(''2023'', ''2023''), (''2024'', ''2024'')],
                            cat_length = Some 2\<rparr>],
      cube_value = Some [(0, Some 80), (1, Some 60), (2, Some 82), (3, Some 65)]\<rparr>"

text \<open>The flat records of the scenario cube, and those of the cube with two units.\<close>

definition scenario_records :: "flat_record list" where
  "scenario_records =
     [\<lparr>rec_value = Some 80, unit_code = Some ''PC_GDP'', unit_label = Some ''%'',
       geo_code = Some ''BE'', geo_label = Some ''Belgium'',
       time_code = Some ''2023'', time_label = Some ''2023'', time_pos = Some 0\<rparr>,
      \<lparr>rec_value = Some 60, unit_code = Some ''PC_GDP'', unit_label = Some ''%'',
       geo_code = Some ''BE'', geo_label = Some ''Belgium'',
       time_code = Some ''2024'', time_label = Some ''2024'', time_pos = Some 1\<rparr>,
      \<lparr>rec_value = Some 82, unit_code = Some ''PC_GDP'', unit_label = Some ''%'',
       geo_code = Some ''DE'', geo_label = Some ''Germany'',
       time_code = Some ''2023'', time_label = Some ''2023'', time_pos = Some 0\<rparr>,
      \<lparr>rec_value = Some 65, unit_code = Some ''PC_GDP'', unit_label = Some ''%'',
       geo_code = Some ''DE'', geo_label = Some ''Germany'',
       time_code = Some ''2024'', time_label = Some ''2024'', time_pos = Some 1\<rparr>]"

definition duplicate_records :: "flat_record list" where
  "duplicate_records =
     [\<lparr>rec_value = Some 1, unit_code = Some ''MIO_EUR'', unit_label = Some ''Million euro'',
       geo_code = Some ''BE'', geo_label = Some ''Belgium'',
       time_code = Some ''2024'', time_label = Some ''2024'', time_pos = Some 0\<rparr>,
      \<lparr>rec_value = Some 2, unit_code = Some ''MIO_NAC'',
       unit_label = Some ''Million units of national currency'',
       geo_code = Some ''BE'', geo_label = Some ''Belgium'',
       time_code = Some ''2024'', time_label = Some ''2024'', time_pos = Some 0\<rparr>]"

text \<open>Two records of the latest period, the first with a value, the second without.\<close>

definition mixed_records :: "flat_record list" where
  "mixed_records =
     [\<lparr>rec_value = Some 1, unit_code = Some ''PC_GDP'', unit_label = Some ''%'',
       geo_code = Some ''BE'', geo_label = Some ''Belgium'',
       time_code = Some ''2024'', time_label = Some ''2024'', time_pos = Some 0\<rparr>,
      \<lparr>rec_value = None, unit_code = Some ''PC_GDP'', unit_label = Some ''%'',
       geo_code = Some ''DE'', geo_label = Some ''Germany'',
       time_code = Some ''2024'', time_label = Some ''2024'', time_pos = Some 0\<rparr>]"

lemma coords_loop_digits:
  "\<forall>s \<in> set ss. s \<noteq> 0 \<Longrightarrow> coords_loop idx ss acc = Inr (acc @ digits idx ss)"
  by (induction ss arbitrary: idx acc) auto

lemma length_digits [simp]: "length (digits idx ss) = length ss"
  by (induction ss arbitrary: idx) auto

lemma linear_index_to_coords_digits:
  "\<forall>s \<in> set sizes. s \<noteq> 0 \<Longrightarrow>
     linear_index_to_coords idx sizes = Inr (rev (digits idx (rev sizes)))"
  by (simp add: linear_index_to_coords_def coords_loop_digits)

lemma digits_range:
  "\<forall>s \<in> set ss. 0 < s \<Longrightarrow> i < length ss \<Longrightarrow>
     0 \<le> digits idx ss ! i \<and> digits idx ss ! i < ss ! i"
proof (induction ss arbitrary: idx i)
  case Nil
  then show ?case by simp
next
  case (Cons s ss)
  show ?case
  proof (cases i)
    case 0
    with Cons.prems show ?thesis by simp
  next
    case (Suc j)
    with Cons.prems Cons.IH [of j "idx div s"] show ?thesis by simp
  qed
qed

lemma prod_list_nonneg: "\<forall>s \<in> set ss. 0 < s \<Longrightarrow> 0 \<le> prod_list (ss :: int list)"
  by (induction ss) auto

lemma div_less_of_less_mult:
  fixes idx s q :: int
  assumes s: "0 < s" and lt: "idx < s * q"
  shows "idx div s < q"
proof (rule ccontr)
  assume "\<not> idx div s < q"
  then have "q \<le> idx div s" by simp
  then have le: "s * q \<le> s * (idx div s)" using s by (simp add: mult_left_mono)
  have eq: "s * (idx div s) + idx mod s = idx" by simp
  have "0 \<le> idx mod s" using s by simp
  with le eq lt show False by linarith
qed

lemma digits_mod_prod:
  "\<forall>s \<in> set ss. 0 < s \<Longrightarrow> digits (idx mod prod_list ss) ss = digits idx ss"
proof (induction ss arbitrary: idx)
  case Nil
  then show ?case by simp
next
  case (Cons s ss)
  have s: "0 < s" using Cons.prems by simp
  have m: "(idx mod (s * prod_list ss)) mod s = idx mod s"
    by (simp add: mod_mod_cancel)
  have "0 \<le> prod_list ss" using Cons.prems by (simp add: prod_list_nonneg)
  then have "idx mod (s * prod_list ss) = s * ((idx div s) mod prod_list ss) + idx mod s"
    by (simp add: zmod_zmult2_eq)
  then have d: "(idx mod (s * prod_list ss)) div s = (idx div s) mod prod_list ss"
    using s by simp
  show ?case
    using Cons.IH [of "idx div s"] Cons.prems by (simp add: m d)
qed

lemma encode_digits:
  "\<forall>s \<in> set sizes. 0 < s \<Longrightarrow> 0 \<le> idx \<Longrightarrow> idx < prod_list sizes \<Longrightarrow>
     mixed_radix_encode sizes (rev (digits idx (rev sizes))) = idx"
proof (induction sizes arbitrary: idx rule: rev_induct)
  case Nil
  then show ?case by (simp add: mixed_radix_encode_def)
next
  case (snoc s ss)
  have s: "0 < s" using snoc.prems by simp
  have pos: "0 \<le> idx div s" using snoc.prems s by (simp add: pos_imp_zdiv_nonneg_iff)
  have "idx < s * prod_list ss" using snoc.prems by (simp add: mult.commute)
  then have lt: "idx div s < prod_list ss"
    using s by (rule div_less_of_less_mult [rotated])
  have ih: "mixed_radix_encode ss (rev (digits (idx div s) (rev ss))) = idx div s"
    using snoc.IH [OF _ pos lt] snoc.prems by simp
  have "mixed_radix_encode (ss @ [s]) (rev (digits idx (rev (ss @ [s]))))
      = mixed_radix_encode ss (rev (digits (idx div s) (rev ss))) * s + idx mod s"
    by (simp add: mixed_radix_encode_def)
  then show ?case using ih by simp
qed

lemma digits_rev_range:
  assumes "\<forall>s \<in> set sizes. 0 < s" and "i < length sizes"
  shows "0 \<le> rev (digits idx (rev sizes)) ! i \<and> rev (digits idx (rev sizes)) ! i < sizes ! i"
proof -
  let ?n = "length sizes"
  have j: "?n - Suc i < length (rev sizes)" using assms(2) by simp
  have pos: "\<forall>s \<in> set (rev sizes). 0 < s" using assms(1) by simp
  have r: "rev (digits idx (rev sizes)) ! i = digits idx (rev sizes) ! (?n - Suc i)"
    using assms(2) by (simp add: rev_nth)
  have q: "rev sizes ! (?n - Suc i) = sizes ! i"
    using assms(2) by (simp add: rev_nth)
  from digits_range [OF pos j, of idx] r q show ?thesis by simp
qed

section \<open>Claims about the coordinate decoder\<close>

text \<open>
  Claim C3. For every list of positive dimension sizes and every index with
  \<open>0 \<le> index < product(sizes)\<close>, the decoder returns a position vector; re-encoding it
  as mixed-radix digits over the same sizes (row-major) gives the index back; and the
  vector has one position per dimension, in the order of the sizes, each within its
  dimension's range.
\<close>

theorem decode_encode_roundtrip:
  assumes "\<forall>s \<in> set sizes. 0 < s" and "0 \<le> idx" and "idx < prod_list sizes"
  shows "\<exists>coords. linear_index_to_coords idx sizes = Inr coords
           \<and> mixed_radix_encode sizes coords = idx
           \<and> length coords = length sizes
           \<and> (\<forall>i < length sizes. 0 \<le> coords ! i \<and> coords ! i < sizes ! i)"
proof -
  have nz: "\<forall>s \<in> set sizes. s \<noteq> 0" using assms(1) by auto
  let ?cs = "rev (digits idx (rev sizes))"
  have "linear_index_to_coords idx sizes = Inr ?cs"
    by (rule linear_index_to_coords_digits [OF nz])
  moreover have "mixed_radix_encode sizes ?cs = idx"
    by (rule encode_digits [OF assms])
  moreover have "length ?cs = length sizes" by simp
  moreover have "\<forall>i < length sizes. 0 \<le> ?cs ! i \<and> ?cs ! i < sizes ! i"
    using digits_rev_range [OF assms(1)] by blast
  ultimately show ?thesis by blast
qed

theorem decode_encode_roundtrip_witness:
  "linear_index_to_coords 3 [1, 2, 2] = Inr [0, 1, 1]
     \<and> mixed_radix_encode [1, 2, 2] [0, 1, 1] = 3"
  using decode_encode_roundtrip [of "[1, 2, 2]" 3]
  by (simp add: linear_index_to_coords_def mixed_radix_encode_def)

text \<open>
  Claim C10. For every non-negative index and every non-empty list of strictly positive
  sizes the decoder returns (it raises nothing), every position lies in \<open>[0, size)\<close> of
  its dimension, and the index and its residue modulo the product of the sizes decode
  to the same vector: an index beyond the cell space aliases to a cell inside it.
\<close>

theorem decode_total_aliasing:
  assumes "0 \<le> idx" and "sizes \<noteq> []" and "\<forall>s \<in> set sizes. 0 < s"
  shows "\<exists>coords. linear_index_to_coords idx sizes = Inr coords
           \<and> length coords = length sizes
           \<and> (\<forall>i < length sizes. 0 \<le> coords ! i \<and> coords ! i < sizes ! i)
           \<and> linear_index_to_coords (idx mod prod_list sizes) sizes = Inr coords"
proof -
  have nz: "\<forall>s \<in> set sizes. s \<noteq> 0" using assms(3) by auto
  have pos: "\<forall>s \<in> set (rev sizes). 0 < s" using assms(3) by simp
  let ?cs = "rev (digits idx (rev sizes))"
  have a: "linear_index_to_coords idx sizes = Inr ?cs"
    by (rule linear_index_to_coords_digits [OF nz])
  have "digits (idx mod prod_list (rev sizes)) (rev sizes) = digits idx (rev sizes)"
    by (rule digits_mod_prod [OF pos])
  then have b: "linear_index_to_coords (idx mod prod_list sizes) sizes = Inr ?cs"
    using linear_index_to_coords_digits [OF nz, of "idx mod prod_list sizes"] by simp
  have c: "\<forall>i < length sizes. 0 \<le> ?cs ! i \<and> ?cs ! i < sizes ! i"
    using digits_rev_range [OF assms(3)] by blast
  from a b c show ?thesis by simp
qed

theorem decode_total_aliasing_witness:
  "linear_index_to_coords 4 [1, 2, 2] = Inr [0, 0, 0]
     \<and> linear_index_to_coords (4 mod prod_list [1, 2, 2]) [1, 2, 2] = Inr [0, 0, 0]"
  using decode_total_aliasing [of 4 "[1, 2, 2]"]
  by (simp add: linear_index_to_coords_def)

section \<open>Claims about the latest-period order\<close>

lemma sort_reverse_descending:
  "sorted_wrt (\<lambda>x y. key y \<le> key x) (sort_reverse key xs)"
proof -
  have "sorted (map key (sort_key key (rev xs)))" by simp
  then have "sorted_wrt (\<lambda>x y. key x \<le> key y) (sort_key key (rev xs))"
    by (simp add: sorted_wrt_map)
  then show ?thesis by (simp add: sort_reverse_def sorted_wrt_rev)
qed

lemma mset_sort_reverse [simp]: "mset (sort_reverse key xs) = mset xs"
  by (simp add: sort_reverse_def)

lemma latest_key_order:
  "latest_key y \<le> latest_key x \<Longrightarrow> missing_first_desc (rec_value x) (rec_value y)"
  by (cases "rec_value x"; cases "rec_value y") (auto simp: latest_key_def)

lemma map_value_latest_row [simp]:
  "map value_pct_gdp (map latest_row_of rs) = map rec_value rs"
  by (simp add: latest_row_of_def)

text \<open>
  Claim C1, as the code has it. The latest-period output holds exactly the rows of the
  records at the latest time position, and its value column is in descending order of
  the key \<open>(value is missing, value)\<close>: the records without a value come first, before
  every record with a value, and the present values follow from the largest to the
  smallest, whatever their sign.
\<close>

theorem latest_projection_order:
  "sorted_wrt missing_first_desc (map value_pct_gdp (latest_projection p recs))
     \<and> mset (latest_projection p recs)
         = mset (map latest_row_of (filter (\<lambda>r. time_pos r = Some p) recs))"
proof -
  let ?ys = "sort_reverse latest_key (filter (\<lambda>r. time_pos r = Some p) recs)"
  have "sorted_wrt (\<lambda>x y. latest_key y \<le> latest_key x) ?ys"
    by (rule sort_reverse_descending)
  then have "sorted_wrt (\<lambda>x y. missing_first_desc (rec_value x) (rec_value y)) ?ys"
    by (rule sorted_wrt_mono_rel [rotated]) (rule latest_key_order)
  then have "sorted_wrt missing_first_desc (map rec_value ?ys)"
    by (simp add: sorted_wrt_map)
  then show ?thesis by (simp add: latest_projection_def comp_def latest_row_of_def)
qed

text \<open>
  Claim C1 as stated fails: of two records of the latest period, one with the value 1 and
  one without a value, the code puts the one without a value first, so the output is not
  in the order that places missing values after present ones.
\<close>

theorem missing_last_counterexample:
  "\<not> sorted_wrt missing_last_desc (map value_pct_gdp (latest_projection 0 mixed_records))"
  by (simp add: latest_projection_def mixed_records_def sort_reverse_def latest_key_def latest_row_of_def)

section \<open>Claims about the parse operation\<close>

lemma units_present_nonempty: "u \<in> set (units_present_of recs) \<Longrightarrow> u \<noteq> []"
  by (auto simp: units_present_of_def truthy_def split: option.splits)

lemma first_candidate_in: "first_candidate cands ups = Some c \<Longrightarrow> c \<in> set ups"
  by (induction cands) (auto split: if_splits)

lemma unit_labels_loop_keys:
  "\<forall>k \<in> set (map fst acc). k \<noteq> [] \<Longrightarrow> k \<in> set (map fst (unit_labels_loop rs acc)) \<Longrightarrow> k \<noteq> []"
proof (induction rs arbitrary: acc)
  case Nil
  then show ?case by auto
next
  case (Cons r rs)
  show ?case
  proof (cases "truthy (unit_code r) \<and> the (unit_code r) \<notin> set (map fst acc)")
    case True
    then have "\<forall>k \<in> set (map fst (dict_set acc (the (unit_code r)) (unit_label r))). k \<noteq> []"
      using Cons.prems(1) by (auto simp: dict_set_def truthy_def split: option.splits)
    with Cons.IH Cons.prems(2) True show ?thesis by simp
  next
    case False
    then have "unit_labels_loop (r # rs) acc = unit_labels_loop rs acc" by auto
    with Cons.IH [OF Cons.prems(1)] Cons.prems(2) show ?thesis by simp
  qed
qed

lemma first_percent_in: "first_percent ul = Some c \<Longrightarrow> c \<in> set (map fst ul)"
  by (induction ul) (auto split: if_splits)

lemma choose_pct_unit_nonempty: "choose_pct_unit recs = Some u \<Longrightarrow> u \<noteq> []"
proof -
  assume a: "choose_pct_unit recs = Some u"
  show ?thesis
  proof (cases "first_candidate [''PC_GDP'', ''PCGDP'', ''PCT_GDP'', ''PCTGDP''] (units_present_of recs)")
    case (Some c)
    with a have "u = c" by (simp add: choose_pct_unit_def Let_def)
    with Some show ?thesis using first_candidate_in units_present_nonempty by blast
  next
    case None
    note n1 = None
    show ?thesis
    proof (cases "first_percent (unit_labels_loop recs [])")
      case (Some c)
      with a n1 have "u = c" by (simp add: choose_pct_unit_def Let_def)
      with Some have "u \<in> set (map fst (unit_labels_loop recs []))"
        using first_percent_in by blast
      then show ?thesis using unit_labels_loop_keys [of "[]" u recs] by simp
    next
      case None
      with a n1 have l: "length (units_present_of recs) = 1" and u: "u = units_present_of recs ! 0"
        by (auto simp: choose_pct_unit_def Let_def split: if_splits)
      then have "u \<in> set (units_present_of recs)" by (metis nth_mem zero_less_one)
      then show ?thesis by (rule units_present_nonempty)
    qed
  qed
qed

lemma unit_filter_chosen:
  "unit_filter (choose_pct_unit recs) recs =
     (case choose_pct_unit recs of
        None \<Rightarrow> recs
      | Some u \<Rightarrow> filter (\<lambda>r. unit_code r = Some u) recs)"
  by (auto simp: unit_filter_def truthy_def dest: choose_pct_unit_nonempty split: option.splits)

lemma parse_Inr_cases:
  assumes "parse_latest_and_timeseries c = Inr (latest, sbg, m)"
  shows "\<exists>ids sizes dm tm code recs.
           value_map_of c \<noteq> []
         \<and> build_dim_meta c = Inr (ids, sizes, dm)
         \<and> dm ''time'' = Some tm
         \<and> dm_inv_index tm (dm_size tm - 1) = Some code
         \<and> records_loop ids sizes dm (value_map_of c) [] = Inr recs
         \<and> latest = latest_projection (dm_size tm - 1) (unit_filter (choose_pct_unit recs) recs)
         \<and> timeseries_projection (unit_filter (choose_pct_unit recs) recs) = Inr sbg
         \<and> meta_chosen_unit m = choose_pct_unit recs"
  using assms
  by (auto simp: parse_latest_and_timeseries_def Let_def
           split: if_splits sum.splits prod.splits option.splits)

lemma dim_meta_loop_result:
  "dim_meta_loop dimension ds dm0 = Inr dm \<Longrightarrow>
     (\<forall>d \<in> set ds. \<exists>cat. dimension d = Some (Some cat) \<and> dm d = Some (build_entry cat))
   \<and> (\<forall>d. d \<notin> set ds \<longrightarrow> dm d = dm0 d)"
proof (induction ds arbitrary: dm0)
  case Nil
  then show ?case by simp
next
  case (Cons d ds)
  from Cons.prems obtain cat where cat: "dimension d = Some (Some cat)"
    and rest: "dim_meta_loop dimension ds (dm0(d \<mapsto> build_entry cat)) = Inr dm"
    by (auto split: option.splits)
  from Cons.IH [OF rest] have
    ih1: "\<forall>d' \<in> set ds. \<exists>cat'. dimension d' = Some (Some cat') \<and> dm d' = Some (build_entry cat')"
    and ih2: "\<forall>d'. d' \<notin> set ds \<longrightarrow> dm d' = (dm0(d \<mapsto> build_entry cat)) d'"
    by blast+
  have "\<exists>cat'. dimension d = Some (Some cat') \<and> dm d = Some (build_entry cat')"
  proof (cases "d \<in> set ds")
    case True
    with ih1 show ?thesis by blast
  next
    case False
    with ih2 cat show ?thesis by simp
  qed
  with ih1 ih2 show ?case by auto
qed

lemma build_dim_meta_time:
  assumes "build_dim_meta c = Inr (ids, sizes, dm)"
  shows "(''time'' \<notin> set (cube_id c) \<and> dm ''time'' = None)
       \<or> (\<exists>cat. cube_dimension c ''time'' = Some (Some cat) \<and> dm ''time'' = Some (build_entry cat))"
proof -
  from assms have l: "dim_meta_loop (cube_dimension c) (cube_id c) Map.empty = Inr dm"
    by (auto simp: build_dim_meta_def split: sum.splits)
  show ?thesis
  proof (cases "''time'' \<in> set (cube_id c)")
    case True
    with dim_meta_loop_result [OF l] show ?thesis by blast
  next
    case False
    with dim_meta_loop_result [OF l] show ?thesis by simp
  qed
qed

lemma parse_Inr_records:
  assumes "parse_latest_and_timeseries c = Inr (latest, sbg, m)"
  shows "\<exists>cat recs.
           cube_dimension c ''time'' = Some (Some cat)
         \<and> all_records_of c = Inr recs
         \<and> latest = latest_projection (dm_size (build_entry cat) - 1)
              (unit_filter (choose_pct_unit recs) recs)
         \<and> timeseries_projection (unit_filter (choose_pct_unit recs) recs) = Inr sbg
         \<and> meta_chosen_unit m = choose_pct_unit recs"
proof -
  from parse_Inr_cases [OF assms] obtain ids sizes dm tm code recs where
    b: "build_dim_meta c = Inr (ids, sizes, dm)" and t: "dm ''time'' = Some tm"
    and r: "records_loop ids sizes dm (value_map_of c) [] = Inr recs"
    and l: "latest = latest_projection (dm_size tm - 1) (unit_filter (choose_pct_unit recs) recs)"
    and s: "timeseries_projection (unit_filter (choose_pct_unit recs) recs) = Inr sbg"
    and u: "meta_chosen_unit m = choose_pct_unit recs"
    by blast
  from build_dim_meta_time [OF b] t obtain cat where
    cat: "cube_dimension c ''time'' = Some (Some cat)" and tm: "tm = build_entry cat"
    by auto
  have "all_records_of c = Inr recs" using b r by (simp add: all_records_of_def)
  with cat tm l s u show ?thesis by blast
qed

lemma scenario_parse:
  "parse_latest_and_timeseries scenario_cube =
     Inr ([\<lparr>country_code = Some ''DE'', country = Some ''Germany'',
            time = Some ''2024'', value_pct_gdp = Some 65\<rparr>,
           \<lparr>country_code = Some ''BE'', country = Some ''Belgium'',
            time = Some ''2024'', value_pct_gdp = Some 60\<rparr>],
          [(''BE'',
            \<lparr>gs_country_code = ''BE'', gs_country = Some ''Belgium'', gs_unit = ''% of GDP'',
             gs_series = [\<lparr>se_time = Some ''2023'', se_value_pct_gdp = Some 80\<rparr>,
                          \<lparr>se_time = Some ''2024'', se_value_pct_gdp = Some 60\<rparr>]\<rparr>),
           (''DE'',
            \<lparr>gs_country_code = ''DE'', gs_country = Some ''Germany'', gs_unit = ''% of GDP'',
             gs_series = [\<lparr>se_time = Some ''2023'', se_value_pct_gdp = Some 82\<rparr>,
                          \<lparr>se_time = Some ''2024'', se_value_pct_gdp = Some 65\<rparr>]\<rparr>)],
          \<lparr>meta_dim_ids = [''unit'', ''geo'', ''time''],
           meta_units_present = [''PC_GDP''],
           meta_chosen_unit = Some ''PC_GDP'',
           meta_latest_time_code = ''2024'',
           meta_latest_time_label = ''2024''\<rparr>)"
  by code_simp

lemma two_unit_parse:
  "parse_latest_and_timeseries two_unit_cube =
     Inr ([\<lparr>country_code = Some ''BE'', country = Some ''Belgium'',
            time = Some ''2024'', value_pct_gdp = Some 2\<rparr>,
           \<lparr>country_code = Some ''BE'', country = Some ''Belgium'',
            time = Some ''2024'', value_pct_gdp = Some 1\<rparr>],
          [(''BE'',
            \<lparr>gs_country_code = ''BE'', gs_country = Some ''Belgium'', gs_unit = ''% of GDP'',
             gs_series = [\<lparr>se_time = Some ''2024'', se_value_pct_gdp = Some 1\<rparr>,
                          \<lparr>se_time = Some ''2024'', se_value_pct_gdp = Some 2\<rparr>]\<rparr>)],
          \<lparr>meta_dim_ids = [''unit'', ''geo'', ''time''],
           meta_units_present = [''MIO_EUR'', ''MIO_NAC''],
           meta_chosen_unit = None,
           meta_latest_time_code = ''2024'',
           meta_latest_time_label = ''2024''\<rparr>)"
  by code_simp

lemma sparse_parse:
  "parse_latest_and_timeseries sparse_cube =
     Inr ([],
          [(''BE'',
            \<lparr>gs_country_code = ''BE'', gs_country = Some ''Belgium'', gs_unit = ''% of GDP'',
             gs_series = [\<lparr>se_time = Some ''2023'', se_value_pct_gdp = Some 80\<rparr>]\<rparr>),
           (''DE'',
            \<lparr>gs_country_code = ''DE'', gs_country = Some ''Germany'', gs_unit = ''% of GDP'',
             gs_series = [\<lparr>se_time = Some ''2023'', se_value_pct_gdp = Some 82\<rparr>]\<rparr>)],
          \<lparr>meta_dim_ids = [''unit'', ''geo'', ''time''],
           meta_units_present = [''PC_GDP''],
           meta_chosen_unit = Some ''PC_GDP'',
           meta_latest_time_code = ''2024'',
           meta_latest_time_label = ''2024''\<rparr>)"
  by code_simp

lemma two_unit_records:
  "all_records_of two_unit_cube =
     Inr [\<lparr>rec_value = Some 1, unit_code = Some ''MIO_EUR'', unit_label = Some ''Million euro'',
           geo_code = Some ''BE'', geo_label = Some ''Belgium'',
           time_code = Some ''2024'', time_label = Some ''2024'', time_pos = Some 0\<rparr>,
          \<lparr>rec_value = Some 2, unit_code = Some ''MIO_NAC'',
           unit_label = Some ''Million units of national currency'',
           geo_code = Some ''BE'', geo_label = Some ''Belgium'',
           time_code = Some ''2024'', time_label = Some ''2024'', time_pos = Some 0\<rparr>]"
  by code_simp

lemma sparse_records:
  "all_records_of sparse_cube =
     Inr [\<lparr>rec_value = Some 80, unit_code = Some ''PC_GDP'', unit_label = Some ''%'',
           geo_code = Some ''BE'', geo_label = Some ''Belgium'',
           time_code = Some ''2023'', time_label = Some ''2023'', time_pos = Some 0\<rparr>,
          \<lparr>rec_value = Some 82, unit_code = Some ''PC_GDP'', unit_label = Some ''%'',
           geo_code = Some ''DE'', geo_label = Some ''Germany'',
           time_code = Some ''2023'', time_label = Some ''2023'', time_pos = Some 0\<rparr>]"
  by code_simp

lemma dim_meta_loop_returns:
  "\<forall>d \<in> set ds. \<exists>cat. dimension d = Some (Some cat) \<Longrightarrow>
     \<exists>dm. dim_meta_loop dimension ds dm0 = Inr dm"
  by (induction ds arbitrary: dm0) auto

lemma build_dim_meta_no_time:
  assumes "\<forall>d \<in> set (cube_id c). \<exists>cat. cube_dimension c d = Some (Some cat)"
    and "''time'' \<notin> set (cube_id c)"
  shows "\<exists>ids sizes dm. build_dim_meta c = Inr (ids, sizes, dm) \<and> dm ''time'' = None"
proof -
  from dim_meta_loop_returns [OF assms(1)] obtain dm where
    l: "dim_meta_loop (cube_dimension c) (cube_id c) Map.empty = Inr dm"
    by blast
  then have b: "build_dim_meta c = Inr (cube_id c, cube_size c, dm)"
    by (simp add: build_dim_meta_def)
  from dim_meta_loop_result [OF l] assms(2) have "dm ''time'' = None"
    by simp
  with b show ?thesis by blast
qed

text \<open>
  Claim C6. A cube whose value mapping is empty (or absent) makes the parse operation end
  in the \<^verbatim>\<open>ValueError\<close> for a missing value mapping, whatever else the cube holds; a cube
  with values whose dimension catalog has no entry \<^verbatim>\<open>time\<close> makes it end in the
  \<^verbatim>\<open>ValueError\<close> for a missing time dimension, and the catalog has no such entry
  whenever the cube lists no dimension \<^verbatim>\<open>time\<close> and every dimension it lists has a
  category. In both cases the error is the result of the operation: no record is built
  and no projection is computed, and nothing catches the error.
\<close>

theorem parse_structural_errors:
  "(value_map_of c = [] \<longrightarrow> parse_latest_and_timeseries c = Inl ValueError_no_value)
   \<and> (value_map_of c \<noteq> [] \<and> build_dim_meta c = Inr (ids, sizes, dm) \<and> dm ''time'' = None
        \<longrightarrow> parse_latest_and_timeseries c = Inl ValueError_no_time)
   \<and> (value_map_of c \<noteq> [] \<and> ''time'' \<notin> set (cube_id c)
        \<and> (\<forall>d \<in> set (cube_id c). \<exists>cat. cube_dimension c d = Some (Some cat))
        \<longrightarrow> parse_latest_and_timeseries c = Inl ValueError_no_time)"
proof (intro conjI impI)
  assume "value_map_of c = []"
  then show "parse_latest_and_timeseries c = Inl ValueError_no_value"
    by (simp add: parse_latest_and_timeseries_def)
next
  assume "value_map_of c \<noteq> [] \<and> build_dim_meta c = Inr (ids, sizes, dm) \<and> dm ''time'' = None"
  then show "parse_latest_and_timeseries c = Inl ValueError_no_time"
    by (simp add: parse_latest_and_timeseries_def)
next
  assume a: "value_map_of c \<noteq> [] \<and> ''time'' \<notin> set (cube_id c)
        \<and> (\<forall>d \<in> set (cube_id c). \<exists>cat. cube_dimension c d = Some (Some cat))"
  then obtain ids' sizes' dm' where
    "build_dim_meta c = Inr (ids', sizes', dm')" and "dm' ''time'' = None"
    using build_dim_meta_no_time [of c] by blast
  with a show "parse_latest_and_timeseries c = Inl ValueError_no_time"
    by (simp add: parse_latest_and_timeseries_def)
qed

theorem parse_structural_errors_witness:
  "parse_latest_and_timeseries (scenario_cube\<lparr>cube_value := Some []\<rparr>) = Inl ValueError_no_value
   \<and> parse_latest_and_timeseries no_time_cube = Inl ValueError_no_time"
proof -
  have v: "value_map_of (scenario_cube\<lparr>cube_value := Some []\<rparr>) = []"
    by (simp add: value_map_of_def)
  have w: "value_map_of no_time_cube \<noteq> []"
    by (simp add: value_map_of_def no_time_cube_def)
  obtain ids sizes dm where b: "build_dim_meta no_time_cube = Inr (ids, sizes, dm)"
    and t: "dm ''time'' = None"
    by (simp add: build_dim_meta_def no_time_cube_def)
  from parse_structural_errors [of "scenario_cube\<lparr>cube_value := Some []\<rparr>"] v
       parse_structural_errors [of no_time_cube ids sizes dm] w b t
  show ?thesis by blast
qed

text \<open>
  Claim C7, as the code has it. On the scenario cube the latest-period projection is
  \<^verbatim>\<open>DE\<close> with 65 followed by \<^verbatim>\<open>BE\<close> with 60 (the values at the linear indices 3 and 1,
  the cells of the second period), in descending order of value; the timeseries
  projection has the series of \<^verbatim>\<open>BE\<close> (80, then 60) and of \<^verbatim>\<open>DE\<close> (82, then 65), each
  ascending by time.
\<close>

theorem scenario_projections:
  "parse_latest_and_timeseries scenario_cube =
     Inr ([\<lparr>country_code = Some ''DE'', country = Some ''Germany'',
            time = Some ''2024'', value_pct_gdp = Some 65\<rparr>,
           \<lparr>country_code = Some ''BE'', country = Some ''Belgium'',
            time = Some ''2024'', value_pct_gdp = Some 60\<rparr>],
          [(''BE'',
            \<lparr>gs_country_code = ''BE'', gs_country = Some ''Belgium'', gs_unit = ''% of GDP'',
             gs_series = [\<lparr>se_time = Some ''2023'', se_value_pct_gdp = Some 80\<rparr>,
                          \<lparr>se_time = Some ''2024'', se_value_pct_gdp = Some 60\<rparr>]\<rparr>),
           (''DE'',
            \<lparr>gs_country_code = ''DE'', gs_country = Some ''Germany'', gs_unit = ''% of GDP'',
             gs_series = [\<lparr>se_time = Some ''2023'', se_value_pct_gdp = Some 82\<rparr>,
                          \<lparr>se_time = Some ''2024'', se_value_pct_gdp = Some 65\<rparr>]\<rparr>)],
          \<lparr>meta_dim_ids = [''unit'', ''geo'', ''time''],
           meta_units_present = [''PC_GDP''],
           meta_chosen_unit = Some ''PC_GDP'',
           meta_latest_time_code = ''2024'',
           meta_latest_time_label = ''2024''\<rparr>)"
  by (rule scenario_parse)

text \<open>
  Claim C7 as stated fails: the latest-period projection of the scenario cube is not
  \<^verbatim>\<open>DE\<close> with 65 followed by \<^verbatim>\<open>BE\<close> with 82. The value 82 sits at linear index 2,
  a cell of the first period.
\<close>

theorem scenario_claimed_latest_counterexample:
  "\<not> (map country_code (latest_of (parse_latest_and_timeseries scenario_cube))
          = [Some ''DE'', Some ''BE'']
      \<and> map value_pct_gdp (latest_of (parse_latest_and_timeseries scenario_cube))
          = [Some 65, Some 82])"
  by (simp add: scenario_parse latest_of_def)





section \<open>Claims about the unit disambiguator\<close>

lemma set_first_seen [simp]: "set (first_seen xs) = set xs"
  by (induction xs) auto

lemma distinct_first_seen [simp]: "distinct (first_seen xs)"
  by (induction xs) auto

lemma set_unit_codes_of: "set (unit_codes_of recs) = set (units_present_of recs)"
  by (simp add: unit_codes_of_def units_present_of_def)

lemma unit_codes_of_nonempty: "c \<in> set (unit_codes_of recs) \<Longrightarrow> c \<noteq> []"
  by (auto simp: unit_codes_of_def truthy_def split: option.splits)

lemma first_candidate_find:
  "first_candidate cands ups = find (\<lambda>c. c \<in> set ups) cands"
  by (induction cands) auto

lemma first_percent_map:
  "first_percent (map (\<lambda>c. (c, L c)) cs) = find (\<lambda>c. has_percent (L c)) cs"
  by (induction cs) auto

lemma unit_codes_of_Cons:
  "unit_codes_of (r # rs) =
     (if truthy (unit_code r)
      then the (unit_code r) # filter (\<lambda>y. y \<noteq> the (unit_code r)) (unit_codes_of rs)
      else unit_codes_of rs)"
  by (simp add: unit_codes_of_def)

lemma label_of_code_Cons:
  "label_of_code (r # rs) c =
     (if unit_code r = Some c then unit_label r else label_of_code rs c)"
  by (simp add: label_of_code_def)

lemma labels_cong:
  "\<forall>c \<in> set cs. unit_code r \<noteq> Some c \<Longrightarrow>
     map (\<lambda>c. (c, label_of_code (r # rs) c)) cs = map (\<lambda>c. (c, label_of_code rs c)) cs"
  by (induction cs) (simp_all add: label_of_code_Cons)

lemma filter_swap:
  "filter P (filter Q xs) = filter Q (filter P xs)"
  by (induction xs) simp_all

lemma filter_absorb:
  "\<forall>x \<in> set xs. P x \<longrightarrow> Q x \<Longrightarrow> filter Q (filter P xs) = filter P xs"
  by (induction xs) simp_all

lemma filter_new_key:
  "filter (\<lambda>c. c \<notin> set (map fst (acc @ [(u, l)]))) xs
     = filter (\<lambda>c. c \<noteq> u) (filter (\<lambda>c. c \<notin> set (map fst acc)) xs)"
  by (induction xs) auto

lemma unit_labels_loop_spec:
  "unit_labels_loop rs acc =
     acc @ map (\<lambda>c. (c, label_of_code rs c))
             (filter (\<lambda>c. c \<notin> set (map fst acc)) (unit_codes_of rs))"
proof (induction rs arbitrary: acc)
  case Nil
  then show ?case by (simp add: unit_codes_of_def)
next
  case (Cons r rs)
  let ?new = "\<lambda>a. filter (\<lambda>c. c \<notin> set (map fst a)) (unit_codes_of rs)"
  show ?case
  proof (cases "truthy (unit_code r)")
    case False
    then have "\<forall>c \<in> set (?new acc). unit_code r \<noteq> Some c"
      using unit_codes_of_nonempty [of _ rs] by (auto simp: truthy_def split: option.splits)
    then have "map (\<lambda>c. (c, label_of_code (r # rs) c)) (?new acc)
             = map (\<lambda>c. (c, label_of_code rs c)) (?new acc)"
      by (rule labels_cong)
    moreover have "unit_labels_loop (r # rs) acc = unit_labels_loop rs acc"
      using False by simp
    moreover have "unit_codes_of (r # rs) = unit_codes_of rs"
      using False by (simp add: unit_codes_of_Cons)
    ultimately show ?thesis using Cons.IH [of acc] by simp
  next
    case True
    then obtain u where u: "unit_code r = Some u"
      by (auto simp: truthy_def split: option.splits)
    have codes: "unit_codes_of (r # rs) = u # filter (\<lambda>y. y \<noteq> u) (unit_codes_of rs)"
      using True u by (simp add: unit_codes_of_Cons)
    have other: "map (\<lambda>c. (c, label_of_code (r # rs) c)) (filter (\<lambda>c. c \<noteq> u) xs)
               = map (\<lambda>c. (c, label_of_code rs c)) (filter (\<lambda>c. c \<noteq> u) xs)" for xs
      by (rule labels_cong) (auto simp: u)
    have sw: "filter (\<lambda>c. c \<notin> set (map fst acc)) (filter (\<lambda>y. y \<noteq> u) (unit_codes_of rs))
            = filter (\<lambda>c. c \<noteq> u) (?new acc)"
      by (rule filter_swap)
    show ?thesis
    proof (cases "u \<in> set (map fst acc)")
      case True
      have g: "filter (\<lambda>c. c \<noteq> u) (?new acc) = ?new acc"
        using True by (intro filter_absorb) auto
      have hd_out: "filter (\<lambda>c. c \<notin> set (map fst acc)) (u # ys)
                  = filter (\<lambda>c. c \<notin> set (map fst acc)) ys" for ys
        using True by simp
      have "unit_labels_loop (r # rs) acc = unit_labels_loop rs acc"
        using True u by simp
      also have "\<dots> = acc @ map (\<lambda>c. (c, label_of_code rs c)) (?new acc)"
        by (rule Cons.IH)
      also have "\<dots> = acc @ map (\<lambda>c. (c, label_of_code rs c)) (filter (\<lambda>c. c \<noteq> u) (?new acc))"
        by (simp only: g)
      also have "\<dots> = acc @ map (\<lambda>c. (c, label_of_code (r # rs) c)) (filter (\<lambda>c. c \<noteq> u) (?new acc))"
        by (simp only: other)
      also have "\<dots> = acc @ map (\<lambda>c. (c, label_of_code (r # rs) c))
                          (filter (\<lambda>c. c \<notin> set (map fst acc)) (unit_codes_of (r # rs)))"
        by (simp only: codes hd_out sw)
      finally show ?thesis .
    next
      case False
      let ?acc = "acc @ [(u, unit_label r)]"
      have d: "dict_set acc u (unit_label r) = ?acc"
        using False by (simp add: dict_set_def)
      have f: "?new ?acc = filter (\<lambda>c. c \<noteq> u) (?new acc)"
        by (rule filter_new_key)
      have hd_in: "filter (\<lambda>c. c \<notin> set (map fst acc)) (u # ys)
                 = u # filter (\<lambda>c. c \<notin> set (map fst acc)) ys" for ys
        using False by simp
      have "unit_labels_loop (r # rs) acc = unit_labels_loop rs ?acc"
        using False u \<open>truthy (unit_code r)\<close> d by simp
      also have "\<dots> = ?acc @ map (\<lambda>c. (c, label_of_code rs c)) (?new ?acc)"
        by (rule Cons.IH)
      also have "\<dots> = ?acc @ map (\<lambda>c. (c, label_of_code rs c)) (filter (\<lambda>c. c \<noteq> u) (?new acc))"
        by (simp only: f)
      also have "\<dots> = ?acc @ map (\<lambda>c. (c, label_of_code (r # rs) c)) (filter (\<lambda>c. c \<noteq> u) (?new acc))"
        by (simp only: other)
      also have "\<dots> = acc @ (u, label_of_code (r # rs) u)
                          # map (\<lambda>c. (c, label_of_code (r # rs) c)) (filter (\<lambda>c. c \<noteq> u) (?new acc))"
        by (simp add: label_of_code_Cons u)
      also have "\<dots> = acc @ map (\<lambda>c. (c, label_of_code (r # rs) c))
                          (filter (\<lambda>c. c \<notin> set (map fst acc)) (unit_codes_of (r # rs)))"
        by (simp only: codes hd_in sw list.map)
      finally show ?thesis .
    qed
  qed
qed

lemma single_unit_length:
  "(length (units_present_of recs) = 1) = (card (set (unit_codes_of recs)) = 1)"
proof -
  have "length (units_present_of recs) = card (set (unit_codes_of recs))"
    by (simp add: units_present_of_def unit_codes_of_def length_remdups_card_conv)
  then show ?thesis by simp
qed

lemma length_one_singleton: "length xs = 1 \<Longrightarrow> \<exists>a. xs = [a]"
  by (cases xs) simp_all

lemma hd_of_singleton_set: "set xs = {a} \<Longrightarrow> hd xs = a"
  by (cases xs) auto

lemma single_unit_hd:
  assumes "length (units_present_of recs) = 1"
  shows "units_present_of recs ! 0 = hd (unit_codes_of recs)"
proof -
  from length_one_singleton [OF assms] obtain a where a: "units_present_of recs = [a]" ..
  have "set (unit_codes_of recs) = set [a]"
    by (simp only: set_unit_codes_of a)
  then have "set (unit_codes_of recs) = {a}" by simp
  then have h: "hd (unit_codes_of recs) = a" by (rule hd_of_singleton_set)
  have "units_present_of recs ! 0 = a" by (simp only: a nth_Cons_0)
  then show ?thesis by (simp only: h)
qed

text \<open>
  Claim C2. On every flat record list the unit disambiguator returns what the cascade of
  the specification returns: the first of \<^verbatim>\<open>PC_GDP\<close>, \<^verbatim>\<open>PCGDP\<close>, \<^verbatim>\<open>PCT_GDP\<close>,
  \<^verbatim>\<open>PCTGDP\<close> (in this order) that is among the unit codes of the records; failing that,
  the first unit code, in the order in which the records first show the codes, whose
  label contains the character \<^verbatim>\<open>%\<close>; failing that, the unit code if exactly one is
  present; otherwise none. A record whose unit code is missing or empty counts as having
  no unit code, and the label of a code is the one its first record carries.
\<close>

theorem choose_pct_unit_cascade: "choose_pct_unit records = unit_cascade_spec records"
proof -
  let ?prefs = "[''PC_GDP'', ''PCGDP'', ''PCT_GDP'', ''PCTGDP'']"
  have a: "first_candidate ?prefs (units_present_of records)
         = find (\<lambda>c. c \<in> set (unit_codes_of records)) ?prefs"
    unfolding first_candidate_find set_unit_codes_of ..
  have b: "first_percent (unit_labels_loop records [])
         = find (\<lambda>c. has_percent (label_of_code records c)) (unit_codes_of records)"
    unfolding unit_labels_loop_spec [of records "[]"] using first_percent_map by simp
  have c: "(if length (units_present_of records) = 1 then Some (units_present_of records ! 0) else None)
         = (if card (set (unit_codes_of records)) = 1 then Some (hd (unit_codes_of records)) else None)"
    using single_unit_length [of records] single_unit_hd [of records]
    by (cases "length (units_present_of records) = 1") simp_all
  show ?thesis
    unfolding choose_pct_unit_def unit_cascade_spec_def Let_def a b c ..
qed

section \<open>Claims about the dimension catalog builder\<close>

lemma enumerate_fold:
  "distinct members \<Longrightarrow> set members \<inter> set (map fst acc) = {} \<Longrightarrow>
     foldl (\<lambda>d im. dict_set d (snd im) (int (fst im))) acc (enumerate k members)
       = acc @ zip members (map int [k..<k + length members])"
proof (induction members arbitrary: acc k)
  case Nil
  then show ?case by simp
next
  case (Cons m ms)
  have new: "dict_set acc m (int k) = acc @ [(m, int k)]"
    using Cons.prems(2) by (simp add: dict_set_def)
  have d: "distinct ms" using Cons.prems(1) by simp
  have i: "set ms \<inter> set (map fst (acc @ [(m, int k)])) = {}"
    using Cons.prems by auto
  have "k < k + length (m # ms)" by simp
  then have "[k..<k + length (m # ms)] = k # [Suc k..<k + length (m # ms)]"
    by (rule upt_conv_Cons)
  moreover have "k + length (m # ms) = Suc k + length ms" by simp
  ultimately have u: "[k..<k + length (m # ms)] = k # [Suc k..<Suc k + length ms]"
    by (simp only:)
  let ?f = "\<lambda>d im. dict_set d (snd im) (int (fst im))"
  have "foldl ?f acc (enumerate k (m # ms))
      = foldl ?f (dict_set acc m (int k)) (enumerate (Suc k) ms)"
    by simp
  also have "\<dots> = (acc @ [(m, int k)]) @ zip ms (map int [Suc k..<Suc k + length ms])"
    unfolding new by (rule Cons.IH [OF d i])
  also have "\<dots> = acc @ zip (m # ms) (map int (k # [Suc k..<Suc k + length ms]))"
    by simp
  also have "\<dots> = acc @ zip (m # ms) (map int [k..<k + length (m # ms)])"
    by (simp only: u)
  finally show ?case .
qed

lemma enumerate_index_distinct:
  "distinct members \<Longrightarrow>
     enumerate_index members = zip members (map int [0..<length members])"
  using enumerate_fold [of members "[]" 0] by (simp add: enumerate_index_def)

lemma build_entry_index:
  "dm_index (build_entry cat) =
     (if cat_index_map cat = [] then enumerate_index (map fst (cat_labels cat))
      else cat_index_map cat)"
  by (simp add: build_entry_def Let_def)

lemma build_entry_size:
  "dm_size (build_entry cat) =
     (case cat_length cat of
        None \<Rightarrow> int (length (dm_index (build_entry cat)))
      | Some n \<Rightarrow> n)"
  by (simp add: build_entry_def cat_index_map_def cat_labels_def Let_def split: option.splits)

lemma build_dim_meta_entry:
  assumes "build_dim_meta c = Inr (dim_ids, sizes, dim_meta)" and "d \<in> set dim_ids"
  shows "dim_ids = cube_id c \<and> sizes = cube_size c
       \<and> (\<exists>cat. cube_dimension c d = Some (Some cat) \<and> dim_meta d = Some (build_entry cat))"
proof -
  from assms(1) have l: "dim_meta_loop (cube_dimension c) (cube_id c) Map.empty = Inr dim_meta"
    and i: "dim_ids = cube_id c" and s: "sizes = cube_size c"
    by (auto simp: build_dim_meta_def split: sum.splits)
  from dim_meta_loop_result [OF l] assms(2) i s show ?thesis by blast
qed

text \<open>
  Claim C9. For every dimension of a cube whose catalog is built, with the category's
  mappings being dictionaries (distinct keys): the code-to-position map of the catalog is
  the category's index map when that is present and not empty; otherwise it gives the
  keys of the label map, in their order, the positions 0, 1, 2, ...; and the size of the
  dimension is the category's \<^verbatim>\<open>length\<close> field when there is one, else the number of
  distinct codes of the code-to-position map.
\<close>

theorem build_dim_meta_catalog:
  assumes "build_dim_meta c = Inr (dim_ids, sizes, dim_meta)"
    and "d \<in> set dim_ids"
    and "cube_dimension c d = Some (Some cat)"
    and "distinct (map fst (cat_index_map cat))"
    and "distinct (map fst (cat_labels cat))"
  shows "\<exists>e. dim_meta d = Some e
           \<and> (cat_index_map cat \<noteq> [] \<longrightarrow> dm_index e = cat_index_map cat)
           \<and> (cat_index_map cat = [] \<longrightarrow>
                dm_index e = zip (map fst (cat_labels cat))
                                 (map int [0..<length (cat_labels cat)]))
           \<and> (case cat_length cat of
                Some n \<Rightarrow> dm_size e = n
              | None \<Rightarrow> dm_size e = int (card (set (map fst (dm_index e)))))"
proof -
  let ?e = "build_entry cat"
  from build_dim_meta_entry [OF assms(1,2)] assms(3) have e: "dim_meta d = Some ?e" by auto
  have given: "cat_index_map cat \<noteq> [] \<longrightarrow> dm_index ?e = cat_index_map cat"
    by (simp add: build_entry_index)
  have synth: "cat_index_map cat = [] \<longrightarrow>
      dm_index ?e = zip (map fst (cat_labels cat)) (map int [0..<length (cat_labels cat)])"
    using enumerate_index_distinct [OF assms(5)] by (simp add: build_entry_index)
  have dist: "distinct (map fst (dm_index ?e))"
  proof (cases "cat_index_map cat = []")
    case True
    with synth assms(5) show ?thesis by simp
  next
    case False
    with given assms(4) show ?thesis by simp
  qed
  then have "length (dm_index ?e) = card (set (map fst (dm_index ?e)))"
    using distinct_card [of "map fst (dm_index ?e)"] by simp
  then have size: "case cat_length cat of
        Some n \<Rightarrow> dm_size ?e = n
      | None \<Rightarrow> dm_size ?e = int (card (set (map fst (dm_index ?e))))"
    by (simp add: build_entry_size split: option.splits)
  from e given synth size show ?thesis by blast
qed

theorem build_dim_meta_catalog_witness:
  "\<exists>dim_ids sizes dim_meta e1 e2.
      build_dim_meta fallback_cube = Inr (dim_ids, sizes, dim_meta)
    \<and> dim_meta ''geo'' = Some e1 \<and> dm_index e1 = [(''BE'', 0), (''DE'', 1)] \<and> dm_size e1 = 2
    \<and> dim_meta ''time'' = Some e2 \<and> dm_index e2 = [(''2023'', 0), (''2024'', 1)] \<and> dm_size e2 = 2"
proof -
  let ?geo = "\<lparr>cat_index = None,
               cat_label = Some [(''BE'', ''Belgium''), (''DE'', ''Germany'')],
               cat_length = None\<rparr>"
  let ?time = "\<lparr>cat_index = Some [(''2023'', 0), (''2024'', 1)],
                cat_label = Some [(''2023'', ''2023''), (''2024'', ''2024'')],
                cat_length = Some 2\<rparr>"
  obtain dim_ids sizes dim_meta where
    b: "build_dim_meta fallback_cube = Inr (dim_ids, sizes, dim_meta)"
    and i: "dim_ids = [''geo'', ''time'']"
    by (simp add: build_dim_meta_def fallback_cube_def)
  have g: "cube_dimension fallback_cube ''geo'' = Some (Some ?geo)"
    and t: "cube_dimension fallback_cube ''time'' = Some (Some ?time)"
    by (simp_all add: fallback_cube_def)
  from build_dim_meta_catalog [OF b _ g] i obtain e1 where
    "dim_meta ''geo'' = Some e1" "dm_index e1 = [(''BE'', 0), (''DE'', 1)]" "dm_size e1 = 2"
    by (auto simp: cat_index_map_def cat_labels_def)
  moreover from build_dim_meta_catalog [OF b _ t] i obtain e2 where
    "dim_meta ''time'' = Some e2" "dm_index e2 = [(''2023'', 0), (''2024'', 1)]" "dm_size e2 = 2"
    by (auto simp: cat_index_map_def cat_labels_def)
  ultimately show ?thesis using b by auto
qed

section \<open>Claims about the timeseries projection\<close>

lemma geo_codes_of_Cons:
  "geo_codes_of (r # rs) =
     (if truthy (geo_code r)
      then the (geo_code r) # filter (\<lambda>y. y \<noteq> the (geo_code r)) (geo_codes_of rs)
      else geo_codes_of rs)"
  by (simp add: geo_codes_of_def)

lemma filter_snoc_key:
  "filter (\<lambda>c. c \<notin> set (ks @ [g])) xs = filter (\<lambda>c. c \<noteq> g) (filter (\<lambda>c. c \<notin> set ks) xs)"
  by (induction xs) auto

lemma map_fst_append_entry [simp]: "map fst (map (append_entry g e) sbg) = map fst sbg"
  by (induction sbg) (simp_all add: append_entry_def)

lemma series_loop_keys:
  "map fst (series_loop rs sbg) =
     map fst sbg @ filter (\<lambda>g. g \<notin> set (map fst sbg)) (geo_codes_of rs)"
proof (induction rs arbitrary: sbg)
  case Nil
  then show ?case by (simp add: geo_codes_of_def)
next
  case (Cons r rs)
  let ?ks = "map fst sbg"
  let ?new = "\<lambda>ks. filter (\<lambda>g. g \<notin> set ks) (geo_codes_of rs)"
  show ?case
  proof (cases "truthy (geo_code r)")
    case False
    then show ?thesis using Cons.IH [of sbg] by (simp add: geo_codes_of_Cons)
  next
    case True
    let ?g = "the (geo_code r)"
    let ?e = "series_entry_of r"
    have codes: "geo_codes_of (r # rs) = ?g # filter (\<lambda>y. y \<noteq> ?g) (geo_codes_of rs)"
      using True by (simp add: geo_codes_of_Cons)
    have sw: "filter (\<lambda>c. c \<notin> set ?ks) (filter (\<lambda>y. y \<noteq> ?g) (geo_codes_of rs))
            = filter (\<lambda>c. c \<noteq> ?g) (?new ?ks)"
      by (rule filter_swap)
    show ?thesis
    proof (cases "?g \<in> set ?ks")
      case True
      have step: "series_loop (r # rs) sbg = series_loop rs (map (append_entry ?g ?e) sbg)"
        using True \<open>truthy (geo_code r)\<close> by (simp add: Let_def)
      have g: "filter (\<lambda>c. c \<noteq> ?g) (?new ?ks) = ?new ?ks"
        using True by (intro filter_absorb) auto
      have hd_out: "filter (\<lambda>c. c \<notin> set ?ks) (?g # ys) = filter (\<lambda>c. c \<notin> set ?ks) ys" for ys
        using True by simp
      have ih: "map fst (series_loop rs (map (append_entry ?g ?e) sbg))
              = map fst (map (append_entry ?g ?e) sbg)
                @ ?new (map fst (map (append_entry ?g ?e) sbg))"
        by (rule Cons.IH)
      have "map fst (series_loop (r # rs) sbg) = ?ks @ ?new ?ks"
        by (simp only: step ih map_fst_append_entry)
      also have "\<dots> = ?ks @ filter (\<lambda>c. c \<notin> set ?ks) (geo_codes_of (r # rs))"
        by (simp only: codes hd_out sw g)
      finally show ?thesis .
    next
      case False
      let ?s0 = "\<lparr>gs_country_code = ?g, gs_country = geo_label r,
                  gs_unit = ''% of GDP'', gs_series = []\<rparr>"
      let ?sbg1 = "sbg @ [(?g, ?s0)]"
      have d: "dict_set sbg ?g ?s0 = ?sbg1" using False by (simp add: dict_set_def)
      have step: "series_loop (r # rs) sbg = series_loop rs (map (append_entry ?g ?e) ?sbg1)"
        using False \<open>truthy (geo_code r)\<close> d by (simp add: Let_def)
      have k1: "map fst (map (append_entry ?g ?e) ?sbg1) = ?ks @ [?g]"
        by (simp only: map_fst_append_entry) simp
      have hd_in: "filter (\<lambda>c. c \<notin> set ?ks) (?g # ys) = ?g # filter (\<lambda>c. c \<notin> set ?ks) ys" for ys
        using False by simp
      have ih: "map fst (series_loop rs (map (append_entry ?g ?e) ?sbg1))
              = map fst (map (append_entry ?g ?e) ?sbg1)
                @ ?new (map fst (map (append_entry ?g ?e) ?sbg1))"
        by (rule Cons.IH)
      have "map fst (series_loop (r # rs) sbg) = (?ks @ [?g]) @ ?new (?ks @ [?g])"
        by (simp only: step ih k1)
      also have "\<dots> = (?ks @ [?g]) @ filter (\<lambda>c. c \<noteq> ?g) (?new ?ks)"
        by (simp only: filter_snoc_key)
      also have "\<dots> = ?ks @ ?g # filter (\<lambda>c. c \<noteq> ?g) (?new ?ks)"
        by simp
      also have "\<dots> = ?ks @ filter (\<lambda>c. c \<notin> set ?ks) (geo_codes_of (r # rs))"
        by (simp only: codes hd_in sw)
      finally show ?thesis .
    qed
  qed
qed

lemma map_of_append_entry:
  "map_of (map (append_entry g0 e) xs) g =
     (if g = g0 then map_option (\<lambda>s. s\<lparr>gs_series := gs_series s @ [e]\<rparr>) (map_of xs g)
      else map_of xs g)"
  by (induction xs) (auto simp: append_entry_def)

lemma old_series_append_entry:
  "old_series (map (append_entry g0 e) xs) g =
     (if g = g0 \<and> g \<in> set (map fst xs) then old_series xs g @ [e] else old_series xs g)"
proof (cases "map_of xs g")
  case None
  then have "g \<notin> set (map fst xs)" by (simp add: map_of_eq_None_iff)
  with None show ?thesis by (auto simp add: old_series_def map_of_append_entry)
next
  case (Some s)
  then have "map_of xs g \<noteq> None" by simp
  then have "g \<in> set (map fst xs)" by (simp add: map_of_eq_None_iff)
  with Some show ?thesis by (auto simp add: old_series_def map_of_append_entry)
qed

lemma old_series_snoc:
  assumes "g0 \<notin> set (map fst sbg)"
  shows "old_series (sbg @ [(g0, s0)]) g = (if g = g0 then gs_series s0 else old_series sbg g)"
proof -
  from assms have n: "map_of sbg g0 = None" by (simp add: map_of_eq_None_iff)
  show ?thesis
  proof (cases "g = g0")
    case True
    with n show ?thesis by (simp add: old_series_def map_add_def)
  next
    case False
    then show ?thesis by (simp add: old_series_def map_add_def split: option.splits)
  qed
qed

lemma series_loop_series:
  assumes "distinct (map fst sbg)" and "[] \<notin> set (map fst sbg)"
    and "(g, s) \<in> set (series_loop rs sbg)"
  shows "gs_series s =
           old_series sbg g @ map series_entry_of (filter (\<lambda>r. geo_code r = Some g) rs)"
  using assms
proof (induction rs arbitrary: sbg)
  case Nil
  then show ?case by (simp add: old_series_def)
next
  case (Cons r rs)
  have gne: "g \<noteq> []"
  proof -
    from Cons.prems(3) have "g \<in> set (map fst (series_loop (r # rs) sbg))" by force
    then have "g \<in> set (map fst sbg) \<or> g \<in> set (geo_codes_of (r # rs))"
      unfolding series_loop_keys by auto
    moreover have "[] \<notin> set (geo_codes_of (r # rs))"
      by (auto simp: geo_codes_of_def truthy_def split: option.splits)
    ultimately show ?thesis using Cons.prems(2) by auto
  qed
  show ?case
  proof (cases "truthy (geo_code r)")
    case False
    then have "geo_code r \<noteq> Some g" using gne by (auto simp: truthy_def)
    moreover from False Cons.prems(3) have "(g, s) \<in> set (series_loop rs sbg)" by simp
    ultimately show ?thesis using Cons.IH [OF Cons.prems(1,2)] by simp
  next
    case True
    let ?g = "the (geo_code r)"
    let ?e = "series_entry_of r"
    from True have gr: "geo_code r = Some ?g" and g0: "?g \<noteq> []"
      by (auto simp: truthy_def split: option.splits)
    show ?thesis
    proof (cases "?g \<in> set (map fst sbg)")
      case True
      let ?sbg2 = "map (append_entry ?g ?e) sbg"
      have step: "series_loop (r # rs) sbg = series_loop rs ?sbg2"
        using True \<open>truthy (geo_code r)\<close> by (simp add: Let_def)
      have d2: "distinct (map fst ?sbg2)" and n2: "[] \<notin> set (map fst ?sbg2)"
        using Cons.prems(1,2) by (simp_all only: map_fst_append_entry not_False_eq_True)
      from Cons.prems(3) have in2: "(g, s) \<in> set (series_loop rs ?sbg2)"
        by (simp only: step)
      have "gs_series s = old_series ?sbg2 g
              @ map series_entry_of (filter (\<lambda>r. geo_code r = Some g) rs)"
        by (rule Cons.IH [OF d2 n2 in2])
      also have "old_series ?sbg2 g = old_series sbg g @ (if g = ?g then [?e] else [])"
        using True by (simp add: old_series_append_entry)
      finally show ?thesis using gr by auto
    next
      case False
      let ?s0 = "\<lparr>gs_country_code = ?g, gs_country = geo_label r,
                  gs_unit = ''% of GDP'', gs_series = []\<rparr>"
      let ?sbg1 = "sbg @ [(?g, ?s0)]"
      let ?sbg2 = "map (append_entry ?g ?e) ?sbg1"
      have d: "dict_set sbg ?g ?s0 = ?sbg1" using False by (simp add: dict_set_def)
      have step: "series_loop (r # rs) sbg = series_loop rs ?sbg2"
        using False \<open>truthy (geo_code r)\<close> d by (simp add: Let_def)
      have d2: "distinct (map fst ?sbg2)" and n2: "[] \<notin> set (map fst ?sbg2)"
        using Cons.prems(1,2) False g0 by (simp_all only: map_fst_append_entry) auto
      from Cons.prems(3) have in2: "(g, s) \<in> set (series_loop rs ?sbg2)"
        by (simp only: step)
      have "gs_series s = old_series ?sbg2 g
              @ map series_entry_of (filter (\<lambda>r. geo_code r = Some g) rs)"
        by (rule Cons.IH [OF d2 n2 in2])
      also have "old_series ?sbg2 g = old_series sbg g @ (if g = ?g then [?e] else [])"
      proof -
        have a1: "old_series ?sbg2 g =
                    (if g = ?g \<and> g \<in> set (map fst ?sbg1) then old_series ?sbg1 g @ [?e]
                     else old_series ?sbg1 g)"
          by (rule old_series_append_entry)
        have a2: "old_series ?sbg1 g = (if g = ?g then [] else old_series sbg g)"
          using old_series_snoc [OF False, of ?s0 g] by simp
        have a3: "?g \<in> set (map fst ?sbg1)" by simp
        have a4: "old_series sbg ?g = []"
        proof -
          from False have "map_of sbg ?g = None" by (simp add: map_of_eq_None_iff)
          then show ?thesis by (simp add: old_series_def)
        qed
        show ?thesis
        proof (cases "g = ?g")
          case True
          with a1 a2 a3 a4 show ?thesis by (simp only: simp_thms if_True append_Nil)
        next
          case False
          with a1 a2 show ?thesis by (simp only: simp_thms if_False append_Nil2)
        qed
      qed
      finally show ?thesis using gr by auto
    qed
  qed
qed

lemma sorted_first_seen: "sorted xs \<Longrightarrow> sorted (first_seen xs)"
  by (induction xs) (auto intro: sorted_wrt_filter)

lemma series_key_geo_mono: "series_key x \<le> series_key y \<Longrightarrow> geo_code x \<le> geo_code y"
  by (auto simp: series_key_def)

lemma series_key_time_mono:
  "series_key x \<le> series_key y \<Longrightarrow> geo_code x = Some g \<Longrightarrow> geo_code y = Some g
     \<Longrightarrow> time_pos x \<le> time_pos y"
  by (auto simp: series_key_def)

lemma geo_codes_sorted:
  assumes "sorted (map series_key srt)"
  shows "sorted_wrt (<) (geo_codes_of srt)"
proof -
  let ?tr = "filter (\<lambda>r. truthy (geo_code r)) srt"
  from assms have "sorted_wrt (\<lambda>x y. series_key x \<le> series_key y) srt"
    by (simp add: sorted_wrt_map)
  then have "sorted_wrt (\<lambda>x y. series_key x \<le> series_key y) ?tr"
    by (rule sorted_wrt_filter)
  then have "sorted_wrt (\<lambda>x y. the (geo_code x) \<le> the (geo_code y)) ?tr"
  proof (rule sorted_wrt_mono_rel [rotated])
    fix x y
    assume "x \<in> set ?tr" and "y \<in> set ?tr" and k: "series_key x \<le> series_key y"
    then obtain a b where "geo_code x = Some a" and "geo_code y = Some b"
      by (auto simp: truthy_def split: option.splits)
    with series_key_geo_mono [OF k] show "the (geo_code x) \<le> the (geo_code y)" by simp
  qed
  then have "sorted (map (\<lambda>r. the (geo_code r)) ?tr)"
    by (simp add: sorted_wrt_map)
  then have "sorted (geo_codes_of srt)"
    unfolding geo_codes_of_def by (rule sorted_first_seen)
  moreover have "distinct (geo_codes_of srt)" by (simp add: geo_codes_of_def)
  ultimately show ?thesis by (simp add: strict_sorted_iff)
qed

lemma truthy_Some: "truthy c = (\<exists>g. c = Some g \<and> g \<noteq> [])"
  by (cases c) (simp_all add: truthy_def)

lemma set_geo_codes_of:
  "set (geo_codes_of rs) = {g. g \<noteq> [] \<and> (\<exists>r \<in> set rs. geo_code r = Some g)}"
proof -
  have "set (geo_codes_of rs) = (\<lambda>r. the (geo_code r)) ` {r \<in> set rs. truthy (geo_code r)}"
    by (simp add: geo_codes_of_def)
  also have "\<dots> = {g. g \<noteq> [] \<and> (\<exists>r \<in> set rs. geo_code r = Some g)}"
  proof (intro set_eqI iffI)
    fix g
    assume "g \<in> (\<lambda>r. the (geo_code r)) ` {r \<in> set rs. truthy (geo_code r)}"
    then obtain r where "r \<in> set rs" and "truthy (geo_code r)" and "g = the (geo_code r)"
      by auto
    then have "r \<in> set rs" and "geo_code r = Some g" and "g \<noteq> []"
      by (auto simp: truthy_Some)
    then show "g \<in> {g. g \<noteq> [] \<and> (\<exists>r \<in> set rs. geo_code r = Some g)}" by blast
  next
    fix g
    assume "g \<in> {g. g \<noteq> [] \<and> (\<exists>r \<in> set rs. geo_code r = Some g)}"
    then obtain r where r: "r \<in> set rs" "geo_code r = Some g" "g \<noteq> []" by blast
    then have "r \<in> {r \<in> set rs. truthy (geo_code r)}" and "g = the (geo_code r)"
      by (simp_all add: truthy_Some)
    then show "g \<in> (\<lambda>r. the (geo_code r)) ` {r \<in> set rs. truthy (geo_code r)}"
      by (rule image_eqI [rotated])
  qed
  finally show ?thesis .
qed

lemma group_sorted:
  assumes "sorted (map series_key srt)"
  shows "sorted (map time_pos (filter (\<lambda>r. geo_code r = Some g) srt))"
proof -
  let ?grp = "filter (\<lambda>r. geo_code r = Some g) srt"
  from assms have "sorted_wrt (\<lambda>x y. series_key x \<le> series_key y) srt"
    by (simp add: sorted_wrt_map)
  then have "sorted_wrt (\<lambda>x y. series_key x \<le> series_key y) ?grp"
    by (rule sorted_wrt_filter)
  then have "sorted_wrt (\<lambda>x y. time_pos x \<le> time_pos y) ?grp"
  proof (rule sorted_wrt_mono_rel [rotated])
    fix x y
    assume "x \<in> set ?grp" and "y \<in> set ?grp" and k: "series_key x \<le> series_key y"
    then have "geo_code x = Some g" and "geo_code y = Some g" by simp_all
    with k show "time_pos x \<le> time_pos y" by (rule series_key_time_mono)
  qed
  then show ?thesis by (simp add: sorted_wrt_map)
qed

lemma group_distinct:
  assumes "distinct (map series_key rs)"
  shows "distinct (map time_pos (filter (\<lambda>r. geo_code r = Some g) rs))"
proof -
  from assms have d: "distinct rs" and i: "inj_on series_key (set rs)"
    by (simp_all add: distinct_map)
  have "inj_on time_pos (set (filter (\<lambda>r. geo_code r = Some g) rs))"
  proof (rule inj_onI)
    fix x y
    assume x: "x \<in> set (filter (\<lambda>r. geo_code r = Some g) rs)"
      and y: "y \<in> set (filter (\<lambda>r. geo_code r = Some g) rs)"
      and t: "time_pos x = time_pos y"
    then have "series_key x = series_key y" by (simp add: series_key_def)
    with i x y show "x = y" by (auto dest: inj_onD)
  qed
  with d show ?thesis by (simp add: distinct_map)
qed

lemma scenario_records_comparable:
  "list_all (\<lambda>x. list_all (\<lambda>y. comparable (series_key x) (series_key y)) scenario_records)
     scenario_records"
  by (simp add: scenario_records_def comparable_def series_key_def)

lemma duplicate_records_of_cube: "all_records_of two_unit_cube = Inr duplicate_records"
  by (simp add: two_unit_records duplicate_records_def)

text \<open>
  Claim C5, as the code has it. For every unit-filtered record list whose sort keys
  \<open>(geography code, time position)\<close> can be compared, the timeseries projection returns
  one series per geography code that is not empty and appears in at least one record
  (records with no geography code, or an empty one, are skipped); the series are in
  strictly ascending (alphabetical) order of geography code; the entries of a series are
  those of the records of its geography, in ascending order of time position; and the
  order is strict, no two entries sharing a time position, whenever no two records of
  the list share both geography code and time position.
\<close>

theorem timeseries_projection_groups:
  assumes "list_all (\<lambda>x. list_all (\<lambda>y. comparable (series_key x) (series_key y)) recs) recs"
  shows "\<exists>sbg. timeseries_projection recs = Inr sbg
           \<and> set (map fst sbg) = {g. g \<noteq> [] \<and> (\<exists>r \<in> set recs. geo_code r = Some g)}
           \<and> sorted_wrt (<) (map fst sbg)
           \<and> (\<forall>gs \<in> set sbg. \<exists>rs.
                 mset rs = filter_mset (\<lambda>r. geo_code r = Some (fst gs)) (mset recs)
               \<and> gs_series (snd gs) = map series_entry_of rs
               \<and> sorted (map time_pos rs)
               \<and> (distinct (map series_key recs) \<longrightarrow> sorted_wrt (<) (map time_pos rs)))"
proof -
  let ?srt = "sort_key series_key recs"
  let ?sbg = "series_loop ?srt []"
  have srt: "sorted (map series_key ?srt)" by simp
  have res: "timeseries_projection recs = Inr ?sbg"
    using assms by (simp add: timeseries_projection_def sorted_by_series_key_def)
  have keys: "map fst ?sbg = geo_codes_of ?srt"
    using series_loop_keys [of ?srt "[]"] by simp
  have a: "set (map fst ?sbg) = {g. g \<noteq> [] \<and> (\<exists>r \<in> set recs. geo_code r = Some g)}"
    unfolding keys set_geo_codes_of by simp
  have b: "sorted_wrt (<) (map fst ?sbg)"
    unfolding keys using srt by (rule geo_codes_sorted)
  have c: "\<exists>rs. mset rs = filter_mset (\<lambda>r. geo_code r = Some (fst gs)) (mset recs)
             \<and> gs_series (snd gs) = map series_entry_of rs
             \<and> sorted (map time_pos rs)
             \<and> (distinct (map series_key recs) \<longrightarrow> sorted_wrt (<) (map time_pos rs))"
    if gs: "gs \<in> set ?sbg" for gs
  proof -
    let ?rs = "filter (\<lambda>r. geo_code r = Some (fst gs)) ?srt"
    from gs have "(fst gs, snd gs) \<in> set ?sbg" by simp
    then have "gs_series (snd gs) = old_series [] (fst gs) @ map series_entry_of ?rs"
      by (intro series_loop_series) simp_all
    then have s: "gs_series (snd gs) = map series_entry_of ?rs"
      by (simp add: old_series_def)
    have m: "mset ?rs = filter_mset (\<lambda>r. geo_code r = Some (fst gs)) (mset recs)"
      by simp
    have o: "sorted (map time_pos ?rs)" using srt by (rule group_sorted)
    have d: "distinct (map series_key recs) \<longrightarrow> sorted_wrt (<) (map time_pos ?rs)"
    proof
      assume "distinct (map series_key recs)"
      then have "distinct recs" and "inj_on series_key (set recs)"
        by (simp_all add: distinct_map)
      then have "distinct (map series_key ?srt)" by (simp add: distinct_map)
      then have "distinct (map time_pos ?rs)" by (rule group_distinct)
      with o show "sorted_wrt (<) (map time_pos ?rs)" by (simp add: strict_sorted_iff)
    qed
    from m s o d show ?thesis by blast
  qed
  from res a b c show ?thesis by blast
qed

theorem timeseries_projection_groups_witness:
  "list_all (\<lambda>x. list_all (\<lambda>y. comparable (series_key x) (series_key y)) scenario_records)
     scenario_records
   \<and> distinct (map series_key scenario_records)
   \<and> (\<exists>sbg. timeseries_projection scenario_records = Inr sbg
         \<and> set (map fst sbg) = {''BE'', ''DE''}
         \<and> sorted_wrt (<) (map fst sbg))"
proof -
  have s: "{g. g \<noteq> [] \<and> (\<exists>r \<in> set scenario_records. geo_code r = Some g)} = {''BE'', ''DE''}"
    by (auto simp: scenario_records_def)
  have d: "distinct (map series_key scenario_records)"
    by (simp add: scenario_records_def series_key_def)
  from timeseries_projection_groups [OF scenario_records_comparable] s d
       scenario_records_comparable
  show ?thesis by auto
qed

text \<open>
  Claim C5 as stated fails: the two records of the cube with two units (no unit is
  chosen there, so nothing is filtered) have the same geography and the same time
  position, and the series of that geography has two entries for its one time position.
\<close>

theorem duplicate_time_position_counterexample:
  "series_lengths (timeseries_projection duplicate_records) = [(''BE'', 2)]
   \<and> time_positions_of ''BE'' duplicate_records = [Some 0]"
  by (simp add: series_lengths_def timeseries_projection_def sorted_by_series_key_def
        duplicate_records_def comparable_def series_key_def time_positions_of_def
        truthy_def dict_set_def append_entry_def series_entry_of_def Let_def)

section \<open>The sort keys of the records of one cube\<close>

text \<open>
  All records of one cube have a geography code or none has, and likewise a time
  position: both depend only on the dimension names paired with a coordinate. So the
  keys of the timeseries sort can always be compared on the records of a cube, filtered
  or not, and the parse operation never ends in a \<^verbatim>\<open>TypeError\<close>.
\<close>

lemma coords_loop_length:
  "coords_loop idx ss acc = Inr cs \<Longrightarrow> length cs = length acc + length ss"
  by (induction ss arbitrary: idx acc) (auto split: if_splits)

lemma coords_loop_error: "coords_loop idx ss acc = Inl e \<Longrightarrow> e = ZeroDivisionError"
  by (induction ss arbitrary: idx acc) (auto split: if_splits)

lemma linear_index_to_coords_length:
  "linear_index_to_coords idx sizes = Inr coords \<Longrightarrow> length coords = length sizes"
  by (auto simp: linear_index_to_coords_def dest: coords_loop_length split: sum.splits)

lemma linear_index_to_coords_error:
  "linear_index_to_coords idx sizes = Inl e \<Longrightarrow> e = ZeroDivisionError"
  by (auto simp: linear_index_to_coords_def dest: coords_loop_error split: sum.splits)

lemma coord_map_loop_dom:
  "coord_map_loop dm nps cm = Inr cm' \<Longrightarrow> dom cm' = dom cm \<union> set (map fst nps)"
proof (induction nps arbitrary: cm)
  case Nil
  then show ?case by simp
next
  case (Cons np nps)
  from Cons.prems have
    "\<exists>co. coord_map_loop dm nps (cm(fst np \<mapsto> co)) = Inr cm'"
    by (auto split: option.splits)
  then obtain co where "coord_map_loop dm nps (cm(fst np \<mapsto> co)) = Inr cm'" ..
  from Cons.IH [OF this] show ?case by auto
qed

lemma coord_map_loop_error: "coord_map_loop dm nps cm = Inl e \<Longrightarrow> e = KeyError"
  by (induction nps arbitrary: cm) (auto split: option.splits)

lemma dim_meta_loop_error: "dim_meta_loop dimension ds dm = Inl e \<Longrightarrow> e = KeyError"
  by (induction ds arbitrary: dm) (auto split: option.splits)

lemma make_record_shape:
  "(geo_code (make_record v cm) = None) = (''geo'' \<notin> dom cm)"
  "(time_pos (make_record v cm) = None) = (''time'' \<notin> dom cm)"
  by (auto simp: make_record_def)

lemma records_loop_shape:
  assumes "records_loop ids sizes dm vm acc = Inr recs"
    and "\<forall>r \<in> set acc. (geo_code r = None) = (''geo'' \<notin> set (take (length sizes) ids))
                      \<and> (time_pos r = None) = (''time'' \<notin> set (take (length sizes) ids))"
  shows "\<forall>r \<in> set recs. (geo_code r = None) = (''geo'' \<notin> set (take (length sizes) ids))
                      \<and> (time_pos r = None) = (''time'' \<notin> set (take (length sizes) ids))"
  using assms
proof (induction vm arbitrary: acc)
  case Nil
  then show ?case by simp
next
  case (Cons kv vm)
  from Cons.prems(1) obtain coords cm where
    c: "linear_index_to_coords (fst kv) sizes = Inr coords"
    and m: "coord_map_loop dm (zip ids coords) Map.empty = Inr cm"
    and r: "records_loop ids sizes dm vm (acc @ [make_record (snd kv) cm]) = Inr recs"
    by (auto split: sum.splits)
  have "dom cm = set (map fst (zip ids coords))"
    using coord_map_loop_dom [OF m] by simp
  also have "\<dots> = set (take (length sizes) ids)"
    using linear_index_to_coords_length [OF c] by (simp add: map_fst_zip_take min_def)
  finally have "dom cm = set (take (length sizes) ids)" .
  then have "\<forall>r \<in> set (acc @ [make_record (snd kv) cm]).
      (geo_code r = None) = (''geo'' \<notin> set (take (length sizes) ids))
    \<and> (time_pos r = None) = (''time'' \<notin> set (take (length sizes) ids))"
    using Cons.prems(2) make_record_shape [of "snd kv" cm] by auto
  with Cons.IH [OF r] show ?case by blast
qed

lemma records_loop_error:
  "records_loop ids sizes dm vm acc = Inl e \<Longrightarrow> e = ZeroDivisionError \<or> e = KeyError"
proof (induction vm arbitrary: acc)
  case Nil
  then show ?case by simp
next
  case (Cons kv vm)
  then show ?case
    by (auto dest: linear_index_to_coords_error coord_map_loop_error split: sum.splits)
qed

lemma uniform_comparable:
  assumes "\<forall>r \<in> set rs. (geo_code r = None) = a \<and> (time_pos r = None) = b"
  shows "list_all (\<lambda>x. list_all (\<lambda>y. comparable (series_key x) (series_key y)) rs) rs"
  using assms by (auto simp: list_all_iff comparable_def series_key_def)

lemma cube_records_comparable:
  assumes "all_records_of c = Inr recs" and "set rs \<subseteq> set recs"
  shows "list_all (\<lambda>x. list_all (\<lambda>y. comparable (series_key x) (series_key y)) rs) rs"
proof -
  from assms(1) obtain ids sizes dm where
    "records_loop ids sizes dm (value_map_of c) [] = Inr recs"
    by (auto simp: all_records_of_def split: sum.splits prod.splits)
  from records_loop_shape [OF this] assms(2) have
    "\<forall>r \<in> set rs. (geo_code r = None) = (''geo'' \<notin> set (take (length sizes) ids))
                  \<and> (time_pos r = None) = (''time'' \<notin> set (take (length sizes) ids))"
    by auto
  then show ?thesis by (rule uniform_comparable)
qed

lemma set_unit_filter: "set (unit_filter u recs) \<subseteq> set recs"
  by (auto simp: unit_filter_def)

lemma parse_no_TypeError: "parse_latest_and_timeseries c \<noteq> Inl TypeError"
proof
  assume a: "parse_latest_and_timeseries c = Inl TypeError"
  have b: "build_dim_meta c \<noteq> Inl TypeError"
    by (auto simp: build_dim_meta_def dest: dim_meta_loop_error split: sum.splits)
  from a b obtain ids sizes dm where
    bd: "build_dim_meta c = Inr (ids, sizes, dm)"
    and rest: "(case records_loop ids sizes dm (value_map_of c) [] of
                  Inl e \<Rightarrow> Inl e
                | Inr recs \<Rightarrow>
                    (case timeseries_projection (unit_filter (choose_pct_unit recs) recs) of
                       Inl e \<Rightarrow> Inl e
                     | Inr sbg \<Rightarrow> Inr ())) = Inl TypeError"
    by (auto simp: parse_latest_and_timeseries_def Let_def
             split: if_splits sum.splits prod.splits option.splits)
  have "records_loop ids sizes dm (value_map_of c) [] \<noteq> Inl TypeError"
    using records_loop_error by fastforce
  with rest obtain recs where
    r: "records_loop ids sizes dm (value_map_of c) [] = Inr recs"
    and t: "timeseries_projection (unit_filter (choose_pct_unit recs) recs) = Inl TypeError"
    by (auto split: sum.splits)
  from bd r have "all_records_of c = Inr recs" by (simp add: all_records_of_def)
  from cube_records_comparable [OF this set_unit_filter]
  have "list_all (\<lambda>x. list_all (\<lambda>y. comparable (series_key x) (series_key y))
           (unit_filter (choose_pct_unit recs) recs)) (unit_filter (choose_pct_unit recs) recs)" .
  then have "timeseries_projection (unit_filter (choose_pct_unit recs) recs) \<noteq> Inl TypeError"
    by (simp add: timeseries_projection_def sorted_by_series_key_def)
  with t show False by contradiction
qed

end
